theory Spec2Isabelle
  imports Complex_Main "HOL-Library.Sublist"
begin

section \<open>Values of a table\<close>

text \<open>
  The program is \<^verbatim>\<open>src/data_acquisition/retrieve_data.py\<close>: three functions over pandas
  tables. A float is modelled with exact arithmetic on its finite values: \<open>Fin x\<close> is the
  finite number \<open>x\<close>, \<open>PInf\<close> and \<open>NInf\<close> are the two infinities and \<open>NaN\<close> is
  not-a-number, the value pandas uses for a missing number. Rounding, overflow and the sign
  of zero are not modelled (zero counts as positive zero).
\<close>

datatype fl = Fin real | PInf | NInf | NaN

fun fneg :: "fl \<Rightarrow> fl" where
  "fneg (Fin a) = Fin (- a)"
| "fneg PInf = NInf"
| "fneg NInf = PInf"
| "fneg NaN = NaN"

fun fadd :: "fl \<Rightarrow> fl \<Rightarrow> fl" where
  "fadd (Fin a) (Fin b) = Fin (a + b)"
| "fadd NaN _ = NaN"
| "fadd _ NaN = NaN"
| "fadd PInf NInf = NaN"
| "fadd NInf PInf = NaN"
| "fadd PInf _ = PInf"
| "fadd _ PInf = PInf"
| "fadd NInf _ = NInf"
| "fadd _ NInf = NInf"

definition fsub :: "fl \<Rightarrow> fl \<Rightarrow> fl" where
  "fsub x y = fadd x (fneg y)"

fun fmul :: "fl \<Rightarrow> fl \<Rightarrow> fl" where
  "fmul (Fin a) (Fin b) = Fin (a * b)"
| "fmul NaN _ = NaN"
| "fmul _ NaN = NaN"
| "fmul (Fin a) y = (if a = 0 then NaN else if 0 < a then y else fneg y)"
| "fmul x (Fin b) = (if b = 0 then NaN else if 0 < b then x else fneg x)"
| "fmul PInf y = y"
| "fmul NInf y = fneg y"

fun fdiv :: "fl \<Rightarrow> fl \<Rightarrow> fl" where
  "fdiv (Fin a) (Fin b) =
     (if b \<noteq> 0 then Fin (a / b)
      else if a = 0 then NaN else if 0 < a then PInf else NInf)"
| "fdiv NaN _ = NaN"
| "fdiv _ NaN = NaN"
| "fdiv (Fin a) _ = Fin 0"
| "fdiv x (Fin b) = (if 0 \<le> b then x else fneg x)"
| "fdiv _ _ = NaN"

text \<open>
  A cell of a table: a number, a timestamp (an integer count of time units since the
  epoch), a text, or \<open>Null\<close>, the missing value of a timestamp or text column
  (\<^verbatim>\<open>NaT\<close>, \<^verbatim>\<open>None\<close>). The missing value of a numeric column is \<open>Num NaN\<close>.
\<close>

datatype cell = Num fl | Stamp int | Text string | Null

fun isna :: "cell \<Rightarrow> bool" where
  "isna (Num NaN) = True"
| "isna Null = True"
| "isna _ = False"

datatype error = KeyError string | TypeError | ValueError | AttributeError

section \<open>Tables\<close>

text \<open>
  A \<^verbatim>\<open>DataFrame\<close>: the index (one label per row) and the columns in their order, each a
  name and one cell per row.
\<close>

record dataframe =
  index :: "cell list"
  columns :: "(string \<times> cell list) list"

definition column_names :: "dataframe \<Rightarrow> string list" where
  "column_names d = map fst (columns d)"

definition nrows :: "dataframe \<Rightarrow> nat" where
  "nrows d = length (index d)"

text \<open>A table is rectangular and, as the provider's tables are, names each column once.\<close>

definition wf_df :: "dataframe \<Rightarrow> bool" where
  "wf_df d \<longleftrightarrow>
     distinct (column_names d) \<and> (\<forall>c \<in> set (columns d). length (snd c) = nrows d)"

text \<open>\<^verbatim>\<open>df.empty\<close>: one of the two axes has length 0.\<close>

definition empty :: "dataframe \<Rightarrow> bool" where
  "empty d \<longleftrightarrow> index d = [] \<or> columns d = []"

text \<open>
  \<^verbatim>\<open>df[name]\<close> raises \<^verbatim>\<open>KeyError\<close> when no column has the name. The model is that of a
  table that names each column once (\<open>wf_df\<close>): where a name is repeated, pandas gives a
  table of all its columns, which the model does not have; it takes the first.
\<close>

definition getitem :: "dataframe \<Rightarrow> string \<Rightarrow> error + cell list" where
  "getitem d name =
     (case map_of (columns d) name of None \<Rightarrow> Inl (KeyError name) | Some c \<Rightarrow> Inr c)"

text \<open>
  \<^verbatim>\<open>df[name] = values\<close> replaces the column of that name where it stands, or appends a new
  column after the last one.
\<close>

fun assign :: "string \<Rightarrow> cell list \<Rightarrow> (string \<times> cell list) list \<Rightarrow> (string \<times> cell list) list" where
  "assign name v [] = [(name, v)]"
| "assign name v ((n, c) # cs) =
     (if n = name then (n, v) # cs else (n, c) # assign name v cs)"

definition setitem :: "dataframe \<Rightarrow> string \<Rightarrow> cell list \<Rightarrow> dataframe" where
  "setitem d name v = d\<lparr>columns := assign name v (columns d)\<rparr>"

text \<open>
  \<^verbatim>\<open>df.set_index(name)\<close>: the column becomes the index and leaves the columns;
  \<^verbatim>\<open>KeyError\<close> when there is no such column. Rows keep their order.
\<close>

definition set_index :: "dataframe \<Rightarrow> string \<Rightarrow> error + dataframe" where
  "set_index d name =
     (case map_of (columns d) name of
        None \<Rightarrow> Inl (KeyError name)
      | Some c \<Rightarrow> Inr \<lparr>index = c, columns = filter (\<lambda>p. fst p \<noteq> name) (columns d)\<rparr>)"

text \<open>
  Forward fill of one column: a missing cell takes the last value seen before it; missing
  cells before the first value stay as they are. \<open>ffill_from\<close> carries the last value
  seen, if any.
\<close>

fun ffill_from :: "cell option \<Rightarrow> cell list \<Rightarrow> cell list" where
  "ffill_from prev [] = []"
| "ffill_from prev (x # xs) =
     (if isna x then (case prev of None \<Rightarrow> x | Some v \<Rightarrow> v) # ffill_from prev xs
      else x # ffill_from (Some x) xs)"

definition ffill_col :: "cell list \<Rightarrow> cell list" where
  "ffill_col xs = ffill_from None xs"

text \<open>\<^verbatim>\<open>df.ffill()\<close> fills every column forward and leaves the index as it is.\<close>

definition ffill :: "dataframe \<Rightarrow> dataframe" where
  "ffill d = d\<lparr>columns := map (\<lambda>(n, c). (n, ffill_col c)) (columns d)\<rparr>"

section \<open>Library functions on columns\<close>

text \<open>Running a function that may raise over a list stops at the first error.\<close>

fun traverse :: "('a \<Rightarrow> error + 'b) \<Rightarrow> 'a list \<Rightarrow> error + 'b list" where
  "traverse f [] = Inr []"
| "traverse f (x # xs) =
     (case f x of
        Inl e \<Rightarrow> Inl e
      | Inr y \<Rightarrow> (case traverse f xs of Inl e \<Rightarrow> Inl e | Inr ys \<Rightarrow> Inr (y # ys)))"

text \<open>
  What the model does not fix of pandas is a parameter of it: how \<^verbatim>\<open>pd.to_datetime\<close> reads
  a number or a text (an error, \<^verbatim>\<open>NaT\<close> or a timestamp), the calendar fields of a timestamp,
  and whether \<^verbatim>\<open>pct_change\<close> fills forward before it divides (it does up to pandas 2, and
  does not from pandas 3 on).
\<close>

record pandas =
  parse_datetime :: "cell \<Rightarrow> error + int option"
  dayofweek :: "int \<Rightarrow> int"
  month :: "int \<Rightarrow> int"
  pct_change_pads :: bool

text \<open>\<^verbatim>\<open>pd.to_datetime(column)\<close>: timestamps and missing values stay, the rest is parsed.\<close>

fun to_datetime_cell :: "pandas \<Rightarrow> cell \<Rightarrow> error + cell" where
  "to_datetime_cell L (Stamp t) = Inr (Stamp t)"
| "to_datetime_cell L Null = Inr Null"
| "to_datetime_cell L c =
     (case parse_datetime L c of
        Inl e \<Rightarrow> Inl e
      | Inr None \<Rightarrow> Inr Null
      | Inr (Some t) \<Rightarrow> Inr (Stamp t))"

definition to_datetime :: "pandas \<Rightarrow> cell list \<Rightarrow> error + cell list" where
  "to_datetime L c = traverse (to_datetime_cell L) c"

text \<open>
  \<^verbatim>\<open>index.dayofweek\<close> and \<^verbatim>\<open>index.month\<close> exist on an index of timestamps only
  (\<^verbatim>\<open>AttributeError\<close> otherwise); the field of \<^verbatim>\<open>NaT\<close> is \<^verbatim>\<open>NaN\<close>.
\<close>

fun dt_field :: "(int \<Rightarrow> int) \<Rightarrow> cell \<Rightarrow> error + cell" where
  "dt_field f (Stamp t) = Inr (Num (Fin (of_int (f t))))"
| "dt_field f Null = Inr (Num NaN)"
| "dt_field f _ = Inl AttributeError"

definition index_dayofweek :: "pandas \<Rightarrow> dataframe \<Rightarrow> error + cell list" where
  "index_dayofweek L d = traverse (dt_field (dayofweek L)) (index d)"

definition index_month :: "pandas \<Rightarrow> dataframe \<Rightarrow> error + cell list" where
  "index_month L d = traverse (dt_field (month L)) (index d)"

text \<open>Arithmetic needs a column of numbers: \<^verbatim>\<open>TypeError\<close> on any other cell.\<close>

fun to_float :: "cell \<Rightarrow> error + fl" where
  "to_float (Num x) = Inr x"
| "to_float _ = Inl TypeError"

definition to_floats :: "cell list \<Rightarrow> error + fl list" where
  "to_floats c = traverse to_float c"

text \<open>\<^verbatim>\<open>shift(1)\<close>: every value moves one row down, the first row becomes \<^verbatim>\<open>NaN\<close>.\<close>

definition shift1 :: "fl list \<Rightarrow> fl list" where
  "shift1 xs = take (length xs) (NaN # xs)"

text \<open>
  \<^verbatim>\<open>pct_change()\<close>: \<^verbatim>\<open>data / data.shift(1) - 1\<close>, where \<open>data\<close> is the column, filled
  forward first when the library pads.
\<close>

definition pct_change :: "pandas \<Rightarrow> cell list \<Rightarrow> error + fl list" where
  "pct_change L c =
     (case to_floats (if pct_change_pads L then ffill_col c else c) of
        Inl e \<Rightarrow> Inl e
      | Inr xs \<Rightarrow> Inr (map (\<lambda>(a, b). fsub (fdiv a b) (Fin 1)) (zip xs (shift1 xs))))"

text \<open>
  \<^verbatim>\<open>cumprod()\<close> skips missing values: a \<^verbatim>\<open>NaN\<close> counts as 1 in the running product and
  the result at its row is \<^verbatim>\<open>NaN\<close>.
\<close>

fun cumprod_from :: "fl \<Rightarrow> fl list \<Rightarrow> fl list" where
  "cumprod_from p [] = []"
| "cumprod_from p (x # xs) =
     (if x = NaN then NaN # cumprod_from p xs
      else fmul p x # cumprod_from (fmul p x) xs)"

definition cumprod :: "fl list \<Rightarrow> fl list" where
  "cumprod xs = cumprod_from (Fin 1) xs"

text \<open>
  \<^verbatim>\<open>rolling(window=w)\<close>: the window of row \<open>i\<close> is the rows \<open>i - w + 1\<close> to \<open>i\<close> that
  exist; its observations are the finite values in it (pandas turns an infinity into
  \<^verbatim>\<open>NaN\<close> first); with fewer than \<open>w\<close> observations (\<^verbatim>\<open>min_periods\<close> is the
  window) the result is \<^verbatim>\<open>NaN\<close>.
\<close>

definition window :: "nat \<Rightarrow> fl list \<Rightarrow> nat \<Rightarrow> fl list" where
  "window w xs i = drop (i + 1 - w) (take (i + 1) xs)"

fun observations :: "fl list \<Rightarrow> real list" where
  "observations [] = []"
| "observations (Fin a # xs) = a # observations xs"
| "observations (_ # xs) = observations xs"

definition mean :: "real list \<Rightarrow> real" where
  "mean obs = sum_list obs / real (length obs)"

text \<open>\<^verbatim>\<open>std()\<close> is the sample standard deviation (\<^verbatim>\<open>ddof=1\<close>).\<close>

definition std :: "real list \<Rightarrow> real" where
  "std obs = sqrt (sum_list (map (\<lambda>x. (x - mean obs)\<^sup>2) obs) / real (length obs - 1))"

definition rolling :: "nat \<Rightarrow> (real list \<Rightarrow> real) \<Rightarrow> nat \<Rightarrow> fl list \<Rightarrow> fl list" where
  "rolling w f ddof xs =
     map (\<lambda>i. let obs = observations (window w xs i)
              in if w \<le> length obs \<and> ddof < length obs then Fin (f obs) else NaN)
         [0..<length xs]"

definition rolling_mean :: "nat \<Rightarrow> cell list \<Rightarrow> error + fl list" where
  "rolling_mean w c =
     (case to_floats c of Inl e \<Rightarrow> Inl e | Inr xs \<Rightarrow> Inr (rolling w mean 0 xs))"

definition rolling_std :: "nat \<Rightarrow> cell list \<Rightarrow> error + fl list" where
  "rolling_std w c =
     (case to_floats c of Inl e \<Rightarrow> Inl e | Inr xs \<Rightarrow> Inr (rolling w std 1 xs))"

section \<open>The store\<close>

text \<open>
  Tables are objects: a variable holds a reference, \<^verbatim>\<open>df.copy()\<close> and every method that
  returns a table make a new object, and \<^verbatim>\<open>df[name] = values\<close> changes the object in
  place. The world is the list of the objects made so far (a reference is a position in
  it) and the lines printed so far. A statement runs in a world and gives a value or the
  exception it raised, and the world it left.
\<close>

type_synonym ref = nat

record world =
  heap :: "dataframe list"
  stdout :: "string list"

type_synonym 'a prog = "world \<Rightarrow> (error + 'a) \<times> world"

definition ret :: "'a \<Rightarrow> 'a prog" where
  "ret x s = (Inr x, s)"

definition lift :: "error + 'a \<Rightarrow> 'a prog" where
  "lift r s = (r, s)"

definition seq :: "'a prog \<Rightarrow> ('a \<Rightarrow> 'b prog) \<Rightarrow> 'b prog" where
  "seq m f s = (case m s of (Inl e, s') \<Rightarrow> (Inl e, s') | (Inr x, s') \<Rightarrow> f x s')"

definition read :: "ref \<Rightarrow> dataframe prog" where
  "read r s = (Inr (heap s ! r), s)"

definition new :: "dataframe \<Rightarrow> ref prog" where
  "new d s = (Inr (length (heap s)), s\<lparr>heap := heap s @ [d]\<rparr>)"

definition copy :: "ref \<Rightarrow> ref prog" where
  "copy r = seq (read r) new"

definition setitem_at :: "ref \<Rightarrow> string \<Rightarrow> cell list \<Rightarrow> unit prog" where
  "setitem_at r name v s = (Inr (), s\<lparr>heap := (heap s)[r := setitem (heap s ! r) name v]\<rparr>)"

definition print_line :: "string \<Rightarrow> unit prog" where
  "print_line l s = (Inr (), s\<lparr>stdout := stdout s @ [l]\<rparr>)"

section \<open>The program\<close>

text \<open>
  \<^verbatim>\<open>get_stock_data(ticker_symbol, period, interval)\<close>. The provider is a parameter: what
  \<^verbatim>\<open>yf.Ticker(ticker_symbol).history(period, interval)\<close> gives, an exception or a table
  with the name of its index (\<^verbatim>\<open>Date\<close> for daily data, \<^verbatim>\<open>Datetime\<close> for intraday), and the
  text \<^verbatim>\<open>str(e)\<close> of an exception. \<^verbatim>\<open>reset_index()\<close> turns the index into the first
  column and numbers the rows from 0; it raises when a column has the name already.
\<close>

record provider =
  history :: "string \<Rightarrow> string \<Rightarrow> string \<Rightarrow> error + string \<times> dataframe"
  message :: "error \<Rightarrow> string"

definition reset_index :: "string \<Rightarrow> dataframe \<Rightarrow> error + dataframe" where
  "reset_index name d =
     (if name \<in> set (column_names d) then Inl ValueError
      else Inr \<lparr>index = map (\<lambda>i. Num (Fin (real i))) [0..<nrows d],
                columns = (name, index d) # columns d\<rparr>)"

definition get_stock_data :: "provider \<Rightarrow> string \<Rightarrow> string \<Rightarrow> string \<Rightarrow> ref option prog" where
  "get_stock_data P ticker_symbol period interval s =
     (case
        seq (lift (history P ticker_symbol period interval)) (\<lambda>(name, d).
        seq (new d) (\<lambda>r.                                  \<comment> \<open>\<^verbatim>\<open>df = ticker.history(...)\<close>\<close>
        seq (lift (reset_index name d)) (\<lambda>d1.
        seq (new d1) (\<lambda>r1.                                \<comment> \<open>\<^verbatim>\<open>df = df.reset_index()\<close>\<close>
        if empty d1
        then seq (print_line (''No data found for '' @ ticker_symbol)) (\<lambda>_. ret None)
        else ret (Some r1))))) s
      of
        (Inl e, s') \<Rightarrow>                                  \<comment> \<open>\<^verbatim>\<open>except Exception as e\<close>\<close>
          seq (print_line (''Error retrieving data for '' @ ticker_symbol @ '': '' @ message P e))
            (\<lambda>_. ret None) s'
      | (Inr v, s') \<Rightarrow> (Inr v, s'))"

text \<open>
  \<^verbatim>\<open>process_time_series(df)\<close>. The argument is \<open>None\<close> or a reference to a table; so
  is the result.
\<close>

definition process_time_series :: "pandas \<Rightarrow> ref option \<Rightarrow> ref option prog" where
  "process_time_series L df =
     (case df of
        None \<Rightarrow> ret None                                \<comment> \<open>\<^verbatim>\<open>if df is None or df.empty: return None\<close>\<close>
      | Some r \<Rightarrow>
          seq (read r) (\<lambda>d.
          if empty d then ret None
          else
            seq (copy r) (\<lambda>p.                            \<comment> \<open>\<^verbatim>\<open>processed_df = df.copy()\<close>\<close>
            seq (read p) (\<lambda>d1.
            seq (if ''Date'' \<in> set (column_names d1)     \<comment> \<open>\<^verbatim>\<open>if 'Date' in processed_df.columns:\<close>\<close>
                 then seq (lift (getitem d1 ''Date'')) (\<lambda>c.
                      seq (lift (to_datetime L c)) (\<lambda>c'.
                      setitem_at p ''Date'' c'))
                 else ret ()) (\<lambda>_.
            seq (read p) (\<lambda>d2.
            seq (lift (set_index d2 ''Date'')) (\<lambda>d3.     \<comment> \<open>\<^verbatim>\<open>processed_df.set_index('Date')\<close>\<close>
            seq (new d3) (\<lambda>p2.
            seq (read p2) (\<lambda>d4.
            seq (new (ffill d4)) (\<lambda>p3.                   \<comment> \<open>\<^verbatim>\<open>processed_df.ffill()\<close>\<close>
            seq (read p3) (\<lambda>d5.
            seq (lift (index_dayofweek L d5)) (\<lambda>dow.
            seq (setitem_at p3 ''DayOfWeek'' dow) (\<lambda>_.
            seq (read p3) (\<lambda>d6.
            seq (lift (index_month L d6)) (\<lambda>m.
            seq (setitem_at p3 ''Month'' m) (\<lambda>_.
            ret (Some p3)))))))))))))))))"

text \<open>
  \<^verbatim>\<open>calculate_basic_metrics(df)\<close>. \<open>column r name\<close> is the expression
  \<^verbatim>\<open>metrics_df[name]\<close> and \<open>numbers\<close> the operand of an arithmetic operator.
\<close>

definition column :: "ref \<Rightarrow> string \<Rightarrow> cell list prog" where
  "column r name = seq (read r) (\<lambda>d. lift (getitem d name))"

definition numbers :: "ref \<Rightarrow> string \<Rightarrow> fl list prog" where
  "numbers r name = seq (column r name) (\<lambda>c. lift (to_floats c))"

definition calculate_basic_metrics :: "pandas \<Rightarrow> ref option \<Rightarrow> ref option prog" where
  "calculate_basic_metrics L df =
     (case df of
        None \<Rightarrow> ret None                                \<comment> \<open>\<^verbatim>\<open>if df is None or df.empty: return None\<close>\<close>
      | Some r \<Rightarrow>
          seq (read r) (\<lambda>d.
          if empty d then ret None
          else
            seq (copy r) (\<lambda>m.                            \<comment> \<open>\<^verbatim>\<open>metrics_df = df.copy()\<close>\<close>
            seq (column m ''Close'') (\<lambda>close.            \<comment> \<open>\<^verbatim>\<open>metrics_df['Close'].pct_change() * 100\<close>\<close>
            seq (lift (pct_change L close)) (\<lambda>pc.
            seq (setitem_at m ''Daily_Return'' (map (\<lambda>x. Num (fmul x (Fin 100))) pc)) (\<lambda>_.
            seq (numbers m ''Daily_Return'') (\<lambda>dr.       \<comment> \<open>\<^verbatim>\<open>(1 + metrics_df['Daily_Return']/100).cumprod() - 1\<close>\<close>
            seq (setitem_at m ''Cum_Return''
                   (map (\<lambda>x. Num (fsub x (Fin 1)))
                      (cumprod (map (\<lambda>x. fadd (Fin 1) (fdiv x (Fin 100))) dr)))) (\<lambda>_.
            seq (numbers m ''Cum_Return'') (\<lambda>cr.         \<comment> \<open>\<^verbatim>\<open>metrics_df['Cum_Return'] * 100\<close>\<close>
            seq (setitem_at m ''Cum_Return'' (map (\<lambda>x. Num (fmul x (Fin 100))) cr)) (\<lambda>_.
            seq (column m ''Daily_Return'') (\<lambda>dr2.       \<comment> \<open>\<^verbatim>\<open>metrics_df['Daily_Return'].rolling(window=20).std()\<close>\<close>
            seq (lift (rolling_std 20 dr2)) (\<lambda>vol.
            seq (setitem_at m ''Volatility_20d'' (map Num vol)) (\<lambda>_.
            seq (column m ''Volume'') (\<lambda>volume.          \<comment> \<open>\<^verbatim>\<open>metrics_df['Volume'].pct_change() * 100\<close>\<close>
            seq (lift (pct_change L volume)) (\<lambda>vc.
            seq (setitem_at m ''Volume_Change'' (map (\<lambda>x. Num (fmul x (Fin 100))) vc)) (\<lambda>_.
            seq (column m ''Close'') (\<lambda>c5.               \<comment> \<open>\<^verbatim>\<open>metrics_df['Close'].rolling(window=5).mean()\<close>\<close>
            seq (lift (rolling_mean 5 c5)) (\<lambda>ma5.
            seq (setitem_at m ''5d_MA'' (map Num ma5)) (\<lambda>_.
            seq (column m ''Close'') (\<lambda>c20.              \<comment> \<open>\<^verbatim>\<open>metrics_df['Close'].rolling(window=20).mean()\<close>\<close>
            seq (lift (rolling_mean 20 c20)) (\<lambda>ma20.
            seq (setitem_at m ''20d_MA'' (map Num ma20)) (\<lambda>_.
            seq (column m ''Close'') (\<lambda>c50.              \<comment> \<open>\<^verbatim>\<open>metrics_df['Close'].rolling(window=50).mean()\<close>\<close>
            seq (lift (rolling_mean 50 c50)) (\<lambda>ma50.
            seq (setitem_at m ''50d_MA'' (map Num ma50)) (\<lambda>_.
            ret (Some m))))))))))))))))))))))))))"

text \<open>A caller runs the two one after the other: \<^verbatim>\<open>calculate_basic_metrics(process_time_series(df))\<close>.\<close>

definition pipeline :: "pandas \<Rightarrow> ref option \<Rightarrow> ref option prog" where
  "pipeline L df = seq (process_time_series L df) (calculate_basic_metrics L)"

section \<open>Sample inputs\<close>

text \<open>
  A library instance to run examples in: timestamps count nanoseconds since 1970-01-01 (a
  Thursday, day 3 of the week), \<^verbatim>\<open>pd.to_datetime\<close> reads a finite number as such a count
  and \<^verbatim>\<open>NaN\<close> as \<^verbatim>\<open>NaT\<close> and refuses everything else, and \<^verbatim>\<open>pct_change\<close> pads.
\<close>

definition day_ns :: int where
  "day_ns = 86400000000000"

definition month_of_days :: "int \<Rightarrow> int" where
  "month_of_days z =
     (let doe = (z + 719468) mod 146097;
          yoe = (doe - doe div 1460 + doe div 36524 - doe div 146096) div 365;
          doy = doe - (365 * yoe + yoe div 4 - yoe div 100);
          mp = (5 * doy + 2) div 153
      in if mp < 10 then mp + 3 else mp - 9)"

fun sample_parse :: "cell \<Rightarrow> error + int option" where
  "sample_parse (Num (Fin x)) = Inr (Some \<lfloor>x\<rfloor>)"
| "sample_parse (Num NaN) = Inr None"
| "sample_parse _ = Inl ValueError"

definition sample_pandas :: pandas where
  "sample_pandas =
     \<lparr>parse_datetime = sample_parse,
      dayofweek = (\<lambda>t. (t div day_ns + 3) mod 7),
      month = (\<lambda>t. month_of_days (t div day_ns)),
      pct_change_pads = True\<rparr>"

text \<open>
  A raw table as the acquirer returns it: a row per day from 1970-01-01 on, numbered from 0,
  with the columns \<^verbatim>\<open>Date\<close>, \<^verbatim>\<open>Close\<close> (the given cells) and \<^verbatim>\<open>Volume\<close> (1000 each day).
\<close>

definition daily_table :: "cell list \<Rightarrow> dataframe" where
  "daily_table close =
     \<lparr>index = map (\<lambda>i. Num (Fin (real i))) [0..<length close],
      columns =
        [(''Date'', map (\<lambda>i. Stamp (int i * day_ns)) [0..<length close]),
         (''Close'', close),
         (''Volume'', replicate (length close) (Num (Fin 1000)))]\<rparr>"

definition world_of :: "dataframe \<Rightarrow> world" where
  "world_of d = \<lparr>heap = [d], stdout = []\<rparr>"

text \<open>
  A table whose dates run backwards, and one of intraday quotes, which the provider returns
  with a \<^verbatim>\<open>Datetime\<close> column in place of \<^verbatim>\<open>Date\<close>.
\<close>

definition reversed_table :: dataframe where
  "reversed_table =
     \<lparr>index = [Num (Fin 0), Num (Fin 1)],
      columns =
        [(''Date'', [Stamp day_ns, Stamp 0]),
         (''Close'', [Num (Fin 101), Num (Fin 100)]),
         (''Volume'', [Num (Fin 1000), Num (Fin 1000)])]\<rparr>"

definition intraday_table :: dataframe where
  "intraday_table =
     \<lparr>index = [Num (Fin 0), Num (Fin 1)],
      columns =
        [(''Datetime'', [Stamp 0, Stamp 3600000000000]),
         (''Price'', [Num (Fin 100), Num (Fin 101)])]\<rparr>"

section \<open>Order of an index\<close>

text \<open>An index is strictly increasing in time: timestamps only, each before the next.\<close>

fun stamp_less :: "cell \<Rightarrow> cell \<Rightarrow> bool" where
  "stamp_less (Stamp a) (Stamp b) = (a < b)"
| "stamp_less _ _ = False"

definition increasing :: "cell list \<Rightarrow> bool" where
  "increasing idx = sorted_wrt stamp_less idx"

section \<open>Series computed from the closing prices\<close>

text \<open>The series that \<open>calculate_basic_metrics\<close> computes from the closing prices.\<close>

definition percent :: "fl list \<Rightarrow> fl list" where
  "percent xs = map (\<lambda>x. fmul x (Fin 100)) xs"

definition returns_of :: "fl list \<Rightarrow> fl list" where
  "returns_of xs = map (\<lambda>(a, b). fsub (fdiv a b) (Fin 1)) (zip xs (shift1 xs))"

definition compound :: "fl list \<Rightarrow> fl list" where
  "compound dr =
     map (\<lambda>x. fmul (fsub x (Fin 1)) (Fin 100))
       (cumprod (map (\<lambda>x. fadd (Fin 1) (fdiv x (Fin 100))) dr))"

section \<open>Running statements\<close>

lemma seq_lift: "seq (lift x) f s = (case x of Inl e \<Rightarrow> (Inl e, s) | Inr v \<Rightarrow> f v s)"
  by (simp add: seq_def lift_def split: sum.splits)

lemma seq_ret: "seq (ret x) f s = f x s"
  by (simp add: seq_def ret_def)

lemma seq_read: "seq (read r) f s = f (heap s ! r) s"
  by (simp add: seq_def read_def)

lemma seq_new: "seq (new d) f s = f (length (heap s)) (s\<lparr>heap := heap s @ [d]\<rparr>)"
  by (simp add: seq_def new_def)

lemma seq_assoc: "seq (seq m f) g = seq m (\<lambda>x. seq (f x) g)"
  by (auto simp: seq_def fun_eq_iff split: prod.splits sum.splits)

lemma seq_copy: "seq (copy r) f s = f (length (heap s)) (s\<lparr>heap := heap s @ [heap s ! r]\<rparr>)"
  by (simp add: copy_def seq_assoc seq_read seq_new)

lemma seq_setitem_at:
  "seq (setitem_at r n v) f s = f () (s\<lparr>heap := (heap s)[r := setitem (heap s ! r) n v]\<rparr>)"
  by (simp add: seq_def setitem_at_def)

lemma seq_if: "seq (if b then m else m') f = (if b then seq m f else seq m' f)"
  by simp

lemmas run = seq_lift seq_ret seq_read seq_new seq_copy seq_setitem_at seq_assoc seq_if
  column_def numbers_def

lemma seq_print_line: "seq (print_line l) f s = f () (s\<lparr>stdout := stdout s @ [l]\<rparr>)"
  by (simp add: seq_def print_line_def)

text \<open>
  \<open>get_stock_data\<close> never raises, and prints a line whenever it returns \<open>None\<close>; the other
  two functions have no statement that prints.
\<close>

lemma get_stock_data_never_raises: "\<exists>v s'. get_stock_data P t p i s = (Inr v, s')"
  by (auto simp: get_stock_data_def run seq_print_line ret_def split: sum.splits prod.splits)

lemma get_stock_data_None_prints:
  "get_stock_data P t p i s = (Inr None, s') \<Longrightarrow> \<exists>l. stdout s' = stdout s @ [l]"
  by (auto simp: get_stock_data_def run seq_print_line ret_def
      split: sum.splits prod.splits if_splits)

section \<open>Forward fill\<close>

lemma ffill_from_idem: "ffill_from p (ffill_from p xs) = ffill_from p xs"
  by (induction xs arbitrary: p) (auto split: option.splits)

lemma ffill_col_idem: "ffill_col (ffill_col xs) = ffill_col xs"
  by (simp add: ffill_col_def ffill_from_idem)

text \<open>
  Claim C9. Forward fill is idempotent: filling a table that has been filled forward changes
  nothing.
\<close>

theorem ffill_idempotent: "ffill (ffill d) = ffill d"
  by (simp add: ffill_def ffill_col_idem comp_def case_prod_unfold)

theorem ffill_idempotent_witness:
  "ffill (ffill (daily_table [Num NaN, Num (Fin 100), Num NaN, Num (Fin 99)])) =
     ffill (daily_table [Num NaN, Num (Fin 100), Num NaN, Num (Fin 99)]) \<and>
   getitem (ffill (daily_table [Num NaN, Num (Fin 100), Num NaN, Num (Fin 99)])) ''Close'' =
     Inr [Num NaN, Num (Fin 100), Num (Fin 100), Num (Fin 99)]"
  using ffill_idempotent [of "daily_table [Num NaN, Num (Fin 100), Num NaN, Num (Fin 99)]"]
  by (simp add: getitem_def ffill_def ffill_col_def daily_table_def)

section \<open>Columns and tables\<close>

lemma map_of_assign: "map_of (assign n v cs) n' = (if n' = n then Some v else map_of cs n')"
  by (induction cs) auto

lemma getitem_setitem:
  "getitem (setitem d n v) n' = (if n' = n then Inr v else getitem d n')"
  by (simp add: getitem_def setitem_def map_of_assign)

lemma index_setitem: "index (setitem d n v) = index d"
  by (simp add: setitem_def)

lemma map_fst_assign:
  "map fst (assign n v cs) = (if n \<in> fst ` set cs then map fst cs else map fst cs @ [n])"
  by (induction cs) force+

lemma names_assign: "fst ` set (assign n v cs) = insert n (fst ` set cs)"
  using arg_cong [OF map_fst_assign [of n v cs], of set] by (auto split: if_splits)

lemma names_setitem: "set (column_names (setitem d n v)) = insert n (set (column_names d))"
  by (simp add: column_names_def setitem_def names_assign)

lemma names_ffill: "column_names (ffill d) = column_names d"
  by (simp add: column_names_def ffill_def comp_def case_prod_unfold)

lemma filter_assign:
  "filter (\<lambda>p. fst p \<noteq> n) (assign n v cs) = filter (\<lambda>p. fst p \<noteq> n) cs"
  by (induction cs) auto

lemma traverse_length: "traverse f xs = Inr ys \<Longrightarrow> length ys = length xs"
  by (induction xs arbitrary: ys) (auto split: sum.splits)


lemma in_names_iff: "n \<in> set (column_names d) \<longleftrightarrow> (\<exists>c. getitem d n = Inr c)"
proof -
  have "n \<in> set (column_names d) \<longleftrightarrow> map_of (columns d) n \<noteq> None"
    by (simp add: column_names_def map_of_eq_None_iff)
  then show ?thesis
    by (auto simp: getitem_def split: option.splits)
qed

lemma set_index_eq:
  "set_index d n = (case getitem d n of Inl e \<Rightarrow> Inl e
     | Inr c \<Rightarrow> Inr \<lparr>index = c, columns = filter (\<lambda>p. fst p \<noteq> n) (columns d)\<rparr>)"
  by (simp add: set_index_def getitem_def split: option.splits)

lemma process_time_series_SomeD:
  assumes "process_time_series L df s = (Inr (Some r1), s1)"
  shows "\<exists>r c c' dow m. df = Some r \<and> \<not> empty (heap s ! r) \<and>
     getitem (heap s ! r) ''Date'' = Inr c \<and> to_datetime L c = Inr c' \<and>
     traverse (dt_field (dayofweek L)) c' = Inr dow \<and>
     traverse (dt_field (month L)) c' = Inr m \<and>
     r1 = length (heap s) + 2 \<and> length (heap s1) = length (heap s) + 3 \<and>
     stdout s1 = stdout s \<and>
     heap s1 ! r1 =
       setitem (setitem (ffill \<lparr>index = c',
          columns = filter (\<lambda>p. fst p \<noteq> ''Date'') (columns (heap s ! r))\<rparr>) ''DayOfWeek'' dow)
          ''Month'' m"
  using assms
  apply (cases df)
   apply (simp add: process_time_series_def ret_def)
  apply (simp add: process_time_series_def run ret_def in_names_iff set_index_eq getitem_setitem
      index_dayofweek_def index_month_def
      split: if_splits sum.splits)
  apply (auto simp: nth_append index_setitem ffill_def filter_assign setitem_def)
  done

lemma traverse_to_float_map: "traverse to_float (map Num xs) = Inr xs"
  by (induction xs) auto

lemma traverse_to_floatD: "traverse to_float c = Inr xs \<Longrightarrow> c = map Num xs"
proof (induction c arbitrary: xs)
  case Nil
  then show ?case by simp
next
  case (Cons a c)
  then show ?case by (cases a) (auto split: sum.splits)
qed

lemma traverse_to_float: "traverse to_float c = Inr xs \<longleftrightarrow> c = map Num xs"
  using traverse_to_float_map traverse_to_floatD by blast

lemma to_floats_iff: "to_floats c = Inr xs \<longleftrightarrow> c = map Num xs"
  by (simp add: to_floats_def traverse_to_float)

lemma to_floats_map_Num: "to_floats (map Num xs) = Inr xs"
  by (simp add: to_floats_iff)

lemma to_floats_map_Num': "to_floats (map (\<lambda>x. Num (f x)) xs) = Inr (map f xs)"
  using to_floats_map_Num [of "map f xs"] by (simp add: comp_def)

lemma calculate_basic_metrics_SomeD:
  assumes "calculate_basic_metrics L df s = (Inr (Some r2), s2)"
  shows "\<exists>r close volume pc vc cx. df = Some r \<and> \<not> empty (heap s ! r) \<and>
     getitem (heap s ! r) ''Close'' = Inr close \<and> pct_change L close = Inr pc \<and>
     getitem (heap s ! r) ''Volume'' = Inr volume \<and> pct_change L volume = Inr vc \<and>
     to_floats close = Inr cx \<and>
     r2 = length (heap s) \<and> length (heap s2) = length (heap s) + 1 \<and> stdout s2 = stdout s \<and>
     (let dr = map (\<lambda>x. fmul x (Fin 100)) pc in
      heap s2 ! r2 =
       setitem (setitem (setitem (setitem (setitem (setitem (setitem (setitem (heap s ! r)
         ''Daily_Return'' (map Num dr))
         ''Cum_Return'' (map (\<lambda>x. Num (fsub x (Fin 1)))
                      (cumprod (map (\<lambda>x. fadd (Fin 1) (fdiv x (Fin 100))) dr))))
         ''Cum_Return'' (map (\<lambda>x. Num (fmul (fsub x (Fin 1)) (Fin 100)))
                      (cumprod (map (\<lambda>x. fadd (Fin 1) (fdiv x (Fin 100))) dr))))
         ''Volatility_20d'' (map Num (rolling 20 std 1 dr)))
         ''Volume_Change'' (map (\<lambda>x. Num (fmul x (Fin 100))) vc))
         ''5d_MA'' (map Num (rolling 5 mean 0 cx)))
         ''20d_MA'' (map Num (rolling 20 mean 0 cx)))
         ''50d_MA'' (map Num (rolling 50 mean 0 cx)))"
  using assms
  apply (cases df)
   apply (simp add: calculate_basic_metrics_def ret_def)
  apply (simp add: calculate_basic_metrics_def run ret_def getitem_setitem
      to_floats_map_Num' to_floats_map_Num rolling_std_def rolling_mean_def nth_append comp_def
      split: if_splits sum.splits)
  apply (auto simp: Let_def)
  done

lemma map_of_without:
  "map_of (filter (\<lambda>p. fst p \<noteq> k) cs) n = (if n = k then None else map_of cs n)"
  by (induction cs) auto

lemma map_of_ffill:
  "map_of (map (\<lambda>(n, c). (n, ffill_col c)) cs) n = map_option ffill_col (map_of cs n)"
  by (induction cs) auto

lemma getitem_ffill:
  "getitem (ffill d) n = (case getitem d n of Inl e \<Rightarrow> Inl e | Inr c \<Rightarrow> Inr (ffill_col c))"
  by (simp add: getitem_def ffill_def map_of_ffill split: option.splits)

lemma ffill_from_length: "length (ffill_from p xs) = length xs"
  by (induction xs arbitrary: p) auto

lemma ffill_col_length: "length (ffill_col xs) = length xs"
  by (simp add: ffill_col_def ffill_from_length)

lemma distinct_assign: "distinct (map fst cs) \<Longrightarrow> distinct (map fst (assign n v cs))"
  by (simp add: map_fst_assign)

lemma set_assign: "set (assign n v cs) \<subseteq> insert (n, v) (set cs)"
  by (induction cs) (auto split: if_splits)

lemma assign_not_Nil: "assign n v cs \<noteq> []"
  by (cases cs) (auto split: if_splits)

lemma wf_setitem: "wf_df d \<Longrightarrow> length v = nrows d \<Longrightarrow> wf_df (setitem d n v)"
  using set_assign [of n v "columns d"]
  by (auto simp: wf_df_def setitem_def column_names_def nrows_def distinct_assign)

lemma nrows_setitem: "nrows (setitem d n v) = nrows d"
  by (simp add: nrows_def setitem_def)

lemma wf_ffill: "wf_df d \<Longrightarrow> wf_df (ffill d)"
  by (auto simp: wf_df_def ffill_def column_names_def nrows_def ffill_col_length comp_def
      case_prod_unfold)


lemma wf_getitem_length: "wf_df d \<Longrightarrow> getitem d n = Inr c \<Longrightarrow> length c = nrows d"
  by (auto simp: wf_df_def getitem_def split: option.splits dest!: map_of_SomeD)

lemma wf_without:
  "wf_df d \<Longrightarrow> length c = nrows d \<Longrightarrow>
   wf_df \<lparr>index = c, columns = filter (\<lambda>p. fst p \<noteq> k) (columns d)\<rparr>"
  by (auto simp: wf_df_def column_names_def nrows_def distinct_map_filter)

lemma to_datetime_length: "to_datetime L c = Inr c' \<Longrightarrow> length c' = length c"
  by (simp add: to_datetime_def traverse_length)

text \<open>The table that \<open>process_time_series\<close> returns.\<close>

lemma normalized_index:
  assumes "process_time_series L df s = (Inr (Some r1), s1)"
  shows "\<exists>r c. df = Some r \<and> \<not> empty (heap s ! r) \<and>
     getitem (heap s ! r) ''Date'' = Inr c \<and> to_datetime L c = Inr (index (heap s1 ! r1))"
  using process_time_series_SomeD [OF assms]
  by (auto simp: index_setitem ffill_def)

lemma normalized_names:
  assumes "process_time_series L (Some r) s = (Inr (Some r1), s1)"
  shows "set (column_names (heap s1 ! r1)) =
       set (column_names (heap s ! r)) - {''Date''} \<union> {''DayOfWeek'', ''Month''}"
proof -
  from process_time_series_SomeD [OF assms]
  obtain c' dow m where tab: "heap s1 ! r1 =
       setitem (setitem (ffill \<lparr>index = c',
          columns = filter (\<lambda>p. fst p \<noteq> ''Date'') (columns (heap s ! r))\<rparr>) ''DayOfWeek'' dow)
          ''Month'' m"
    by auto
  show ?thesis
    by (auto simp: tab names_setitem names_ffill) (auto simp: column_names_def)
qed

lemma normalized_column:
  assumes "process_time_series L (Some r) s = (Inr (Some r1), s1)"
    and "n \<notin> {''Date'', ''DayOfWeek'', ''Month''}"
  shows "getitem (heap s1 ! r1) n =
         (case getitem (heap s ! r) n of Inl e \<Rightarrow> Inl e | Inr c \<Rightarrow> Inr (ffill_col c))"
proof -
  from process_time_series_SomeD [OF assms(1)]
  obtain c' dow m where tab: "heap s1 ! r1 =
       setitem (setitem (ffill \<lparr>index = c',
          columns = filter (\<lambda>p. fst p \<noteq> ''Date'') (columns (heap s ! r))\<rparr>) ''DayOfWeek'' dow)
          ''Month'' m"
    by auto
  show ?thesis
    using assms(2)
    by (simp add: tab getitem_setitem getitem_ffill) (simp add: getitem_def map_of_without)
qed

lemma normalized_wf:
  assumes "process_time_series L (Some r) s = (Inr (Some r1), s1)" and wf: "wf_df (heap s ! r)"
  shows "wf_df (heap s1 ! r1) \<and> nrows (heap s1 ! r1) = nrows (heap s ! r) \<and>
     \<not> empty (heap s1 ! r1)"
proof -
  from process_time_series_SomeD [OF assms(1)]
  obtain c c' dow m where ne: "\<not> empty (heap s ! r)"
    and c: "getitem (heap s ! r) ''Date'' = Inr c" "to_datetime L c = Inr c'"
    and dow: "traverse (dt_field (dayofweek L)) c' = Inr dow"
    and m: "traverse (dt_field (month L)) c' = Inr m"
    and tab: "heap s1 ! r1 =
       setitem (setitem (ffill \<lparr>index = c',
          columns = filter (\<lambda>p. fst p \<noteq> ''Date'') (columns (heap s ! r))\<rparr>) ''DayOfWeek'' dow)
          ''Month'' m"
    by auto
  let ?t = "\<lparr>index = c', columns = filter (\<lambda>p. fst p \<noteq> ''Date'') (columns (heap s ! r))\<rparr>"
  have len: "length c' = nrows (heap s ! r)"
    using wf c by (simp add: to_datetime_length wf_getitem_length)
  have "wf_df (ffill ?t)"
    by (rule wf_ffill, rule wf_without [OF wf len])
  moreover have rows: "nrows (ffill ?t) = length c'"
    by (simp add: nrows_def ffill_def)
  ultimately have "wf_df (heap s1 ! r1)"
    using traverse_length [OF dow] traverse_length [OF m]
    by (simp add: tab wf_setitem nrows_setitem)
  moreover have "nrows (heap s1 ! r1) = nrows (heap s ! r)"
    by (simp add: tab nrows_setitem rows len)
  moreover have "\<not> empty (heap s1 ! r1)"
    using ne len by (auto simp: tab empty_def setitem_def ffill_def nrows_def assign_not_Nil)
  ultimately show ?thesis
    by simp
qed

section \<open>Series\<close>

lemma shift1_length: "length (shift1 xs) = length xs"
  by (simp add: shift1_def)

lemma shift1_nth: "i < length xs \<Longrightarrow> shift1 xs ! i = (if i = 0 then NaN else xs ! (i - 1))"
  by (cases i) (simp_all add: shift1_def)

lemma fl_ops_nan:
  "fdiv x NaN = NaN" "fsub NaN y = NaN" "fmul NaN y = NaN" "fadd x NaN = NaN"
  "fdiv NaN y = NaN" "fadd NaN y = NaN"
  by (cases x; cases y; simp add: fsub_def)+

lemma pct_change_ffilled:
  "pct_change L (ffill_col c) =
     (case to_floats (ffill_col c) of
        Inl e \<Rightarrow> Inl e
      | Inr xs \<Rightarrow> Inr (map (\<lambda>(a, b). fsub (fdiv a b) (Fin 1)) (zip xs (shift1 xs))))"
  by (simp add: pct_change_def ffill_col_idem)

lemma pct_nth:
  "i < length xs \<Longrightarrow>
   map (\<lambda>(a, b). fsub (fdiv a b) (Fin 1)) (zip xs (shift1 xs)) ! i =
     (if i = 0 then NaN else fsub (fdiv (xs ! i) (xs ! (i - 1))) (Fin 1))"
  by (simp add: shift1_length shift1_nth fl_ops_nan)

lemma cumprod_from_length: "length (cumprod_from p xs) = length xs"
  by (induction xs arbitrary: p) auto

lemma cumprod_from_nan:
  "i < length xs \<Longrightarrow> xs ! i = NaN \<Longrightarrow> cumprod_from p xs ! i = NaN"
proof (induction xs arbitrary: i p)
  case Nil
  then show ?case by simp
next
  case (Cons x xs)
  then show ?case by (cases i) auto
qed

lemma cumprod_from_fin:
  "i < length xs \<Longrightarrow> \<forall>k\<le>i. xs ! k = Fin (y k) \<Longrightarrow>
   cumprod_from (Fin p) xs ! i = Fin (p * (\<Prod>k\<le>i. y k))"
proof (induction xs arbitrary: i p y)
  case Nil
  then show ?case by simp
next
  case (Cons x xs)
  have x: "x = Fin (y 0)"
    using Cons.prems(2) by auto
  show ?case
  proof (cases i)
    case 0
    then show ?thesis by (simp add: x)
  next
    case (Suc j)
    have "cumprod_from (Fin (p * y 0)) xs ! j = Fin (p * y 0 * (\<Prod>k\<le>j. y (Suc k)))"
      using Cons.prems Suc by (intro Cons.IH) auto
    then show ?thesis
      by (simp add: x Suc prod.atMost_Suc_shift mult.assoc del: prod.atMost_Suc)
  qed
qed

text \<open>After a first row that is skipped, the running product is that of the rows 1 to \<open>i\<close>.\<close>

lemma cumprod_after_nan:
  assumes "0 < i" "i < length xs" "xs ! 0 = NaN" "\<forall>k. 1 \<le> k \<and> k \<le> i \<longrightarrow> xs ! k = Fin (y k)"
  shows "cumprod xs ! i = Fin (\<Prod>k = 1..i. y k)"
proof -
  obtain ys where xs: "xs = NaN # ys"
    using assms(2,3) by (cases xs) auto
  obtain j where i: "i = Suc j"
    using assms(1) by (cases i) auto
  have "cumprod_from (Fin 1) ys ! j = Fin (1 * (\<Prod>k\<le>j. y (Suc k)))"
    using assms(2,4) by (intro cumprod_from_fin) (auto simp: xs i)
  moreover have "(\<Prod>k\<le>j. y (Suc k)) = (\<Prod>k = 1..i. y k)"
    by (simp add: i atMost_atLeast0 prod.shift_bounds_cl_Suc_ivl del: prod.cl_ivl_Suc)
  ultimately show ?thesis
    by (simp add: cumprod_def xs i)
qed

section \<open>Rolling windows\<close>

lemma observations_length: "length (observations xs) \<le> length xs"
  by (induction xs rule: observations.induct) auto

lemma observations_map_Fin: "observations (map Fin ys) = ys"
  by (induction ys) auto

lemma observations_full:
  "length (observations xs) = length xs \<longleftrightarrow> (\<forall>x \<in> set xs. \<exists>a. x = Fin a)"
proof (induction xs)
  case Nil
  then show ?case by simp
next
  case (Cons x xs)
  then show ?case
    using observations_length [of xs] by (cases x) auto
qed

lemma window_length: "i < length xs \<Longrightarrow> length (window w xs i) = min w (i + 1)"
  by (auto simp: window_def)

lemma window_eq:
  "i < length xs \<Longrightarrow> window w xs i = map (\<lambda>k. xs ! k) [i + 1 - w..<i + 1]"
  by (auto simp: window_def list_eq_iff_nth_eq simp del: upt_Suc)

lemma rolling_length: "length (rolling w f ddof xs) = length xs"
  by (simp add: rolling_def)

lemma rolling_early:
  "i < length xs \<Longrightarrow> i + 1 < w \<Longrightarrow> rolling w f ddof xs ! i = NaN"
  using observations_length [of "window w xs i"]
  by (simp add: rolling_def Let_def window_length)

lemma rolling_missing:
  assumes "i < length xs" "k \<le> i" "i < k + w" "\<forall>a. xs ! k \<noteq> Fin a"
  shows "rolling w f ddof xs ! i = NaN"
proof -
  have "xs ! k \<in> set (window w xs i)"
    using assms(1-3) by (auto simp: window_eq)
  then have "length (observations (window w xs i)) \<noteq> length (window w xs i)"
    using assms(4) by (auto simp: observations_full)
  then have "length (observations (window w xs i)) < w"
    using observations_length [of "window w xs i"] assms(1)
    by (auto simp: window_length min_def split: if_splits)
  then show ?thesis
    using assms(1) by (simp add: rolling_def Let_def)
qed

lemma rolling_full:
  assumes "i < length xs" "w \<le> i + 1" "ddof < w"
    "\<forall>k. i + 1 - w \<le> k \<and> k \<le> i \<longrightarrow> xs ! k = Fin (g k)"
  shows "rolling w f ddof xs ! i = Fin (f (map g [i + 1 - w..<i + 1]))"
proof -
  have "window w xs i = map Fin (map g [i + 1 - w..<i + 1])"
    using assms(1,4) by (simp add: window_eq del: upt_Suc)
  then have "observations (window w xs i) = map g [i + 1 - w..<i + 1]"
    by (simp only: observations_map_Fin)
  then show ?thesis
    using assms(1-3) by (simp add: rolling_def Let_def)
qed

section \<open>The pipeline\<close>

lemma mean_upt: "mean (map g [a..<b]) = (\<Sum>k = a..<b. g k) / real (b - a)"
  by (simp add: mean_def interv_sum_list_conv_sum_set_nat)

lemma std_upt:
  "std (map g [a..<b]) =
     sqrt ((\<Sum>k = a..<b. (g k - (\<Sum>j = a..<b. g j) / real (b - a))\<^sup>2) / real (b - a - 1))"
  unfolding std_def mean_upt
  by (simp add: comp_def interv_sum_list_conv_sum_set_nat)

lemma augmented_columns:
  assumes "calculate_basic_metrics L (Some r) s = (Inr (Some r2), s2)"
  shows "\<exists>close pc.
     getitem (heap s ! r) ''Close'' = Inr (map Num close) \<and>
     pct_change L (map Num close) = Inr pc \<and>
     getitem (heap s2 ! r2) ''Close'' = Inr (map Num close) \<and>
     getitem (heap s2 ! r2) ''Daily_Return'' = Inr (map Num (percent pc)) \<and>
     getitem (heap s2 ! r2) ''Cum_Return'' = Inr (map Num (compound (percent pc))) \<and>
     getitem (heap s2 ! r2) ''Volatility_20d'' = Inr (map Num (rolling 20 std 1 (percent pc))) \<and>
     getitem (heap s2 ! r2) ''5d_MA'' = Inr (map Num (rolling 5 mean 0 close)) \<and>
     getitem (heap s2 ! r2) ''20d_MA'' = Inr (map Num (rolling 20 mean 0 close)) \<and>
     getitem (heap s2 ! r2) ''50d_MA'' = Inr (map Num (rolling 50 mean 0 close))"
proof -
  from calculate_basic_metrics_SomeD [OF assms]
  obtain cc pc cx vc where cc: "getitem (heap s ! r) ''Close'' = Inr cc"
    and pc: "pct_change L cc = Inr pc" and cx: "to_floats cc = Inr cx"
    and tab: "heap s2 ! r2 =
       setitem (setitem (setitem (setitem (setitem (setitem (setitem (setitem (heap s ! r)
         ''Daily_Return'' (map Num (map (\<lambda>x. fmul x (Fin 100)) pc)))
         ''Cum_Return'' (map (\<lambda>x. Num (fsub x (Fin 1)))
                      (cumprod (map (\<lambda>x. fadd (Fin 1) (fdiv x (Fin 100)))
                         (map (\<lambda>x. fmul x (Fin 100)) pc)))))
         ''Cum_Return'' (map (\<lambda>x. Num (fmul (fsub x (Fin 1)) (Fin 100)))
                      (cumprod (map (\<lambda>x. fadd (Fin 1) (fdiv x (Fin 100)))
                         (map (\<lambda>x. fmul x (Fin 100)) pc)))))
         ''Volatility_20d'' (map Num (rolling 20 std 1 (map (\<lambda>x. fmul x (Fin 100)) pc))))
         ''Volume_Change'' (map (\<lambda>x. Num (fmul x (Fin 100))) vc))
         ''5d_MA'' (map Num (rolling 5 mean 0 cx)))
         ''20d_MA'' (map Num (rolling 20 mean 0 cx)))
         ''50d_MA'' (map Num (rolling 50 mean 0 cx))"
    by (auto simp: Let_def)
  have cc': "cc = map Num cx"
    using cx by (simp add: to_floats_iff)
  show ?thesis
    using cc pc
    by (intro exI [of _ cx] exI [of _ pc])
      (simp add: tab getitem_setitem cc' percent_def compound_def comp_def)
qed

lemma pipeline_columns:
  assumes n: "process_time_series L (Some r0) s0 = (Inr (Some r1), s1)"
    and a: "calculate_basic_metrics L (Some r1) s1 = (Inr (Some r2), s2)"
  shows "\<exists>close.
     getitem (heap s1 ! r1) ''Close'' = Inr (map Num close) \<and>
     getitem (heap s2 ! r2) ''Close'' = Inr (map Num close) \<and>
     getitem (heap s2 ! r2) ''Daily_Return'' = Inr (map Num (percent (returns_of close))) \<and>
     getitem (heap s2 ! r2) ''Cum_Return'' =
       Inr (map Num (compound (percent (returns_of close)))) \<and>
     getitem (heap s2 ! r2) ''Volatility_20d'' =
       Inr (map Num (rolling 20 std 1 (percent (returns_of close)))) \<and>
     getitem (heap s2 ! r2) ''5d_MA'' = Inr (map Num (rolling 5 mean 0 close)) \<and>
     getitem (heap s2 ! r2) ''20d_MA'' = Inr (map Num (rolling 20 mean 0 close)) \<and>
     getitem (heap s2 ! r2) ''50d_MA'' = Inr (map Num (rolling 50 mean 0 close))"
proof -
  from augmented_columns [OF a]
  obtain close pc where close: "getitem (heap s1 ! r1) ''Close'' = Inr (map Num close)"
    and pc: "pct_change L (map Num close) = Inr pc"
    and cols: "getitem (heap s2 ! r2) ''Close'' = Inr (map Num close)"
     "getitem (heap s2 ! r2) ''Daily_Return'' = Inr (map Num (percent pc))"
     "getitem (heap s2 ! r2) ''Cum_Return'' = Inr (map Num (compound (percent pc)))"
     "getitem (heap s2 ! r2) ''Volatility_20d'' = Inr (map Num (rolling 20 std 1 (percent pc)))"
     "getitem (heap s2 ! r2) ''5d_MA'' = Inr (map Num (rolling 5 mean 0 close))"
     "getitem (heap s2 ! r2) ''20d_MA'' = Inr (map Num (rolling 20 mean 0 close))"
     "getitem (heap s2 ! r2) ''50d_MA'' = Inr (map Num (rolling 50 mean 0 close))"
    by blast
  have "getitem (heap s1 ! r1) ''Close'' =
     (case getitem (heap s0 ! r0) ''Close'' of Inl e \<Rightarrow> Inl e | Inr c \<Rightarrow> Inr (ffill_col c))"
    by (rule normalized_column [OF n]) simp
  then obtain c where "ffill_col c = map Num close"
    using close by (auto split: sum.splits)
  then have "pct_change L (map Num close) = Inr (returns_of close)"
    using pct_change_ffilled [of L c] by (simp add: to_floats_map_Num returns_of_def)
  then have "pc = returns_of close"
    using pc by simp
  then show ?thesis
    using close cols by blast
qed

lemma percent_length: "length (percent xs) = length xs"
  by (simp add: percent_def)

lemma returns_of_length: "length (returns_of xs) = length xs"
  by (simp add: returns_of_def shift1_length)

lemma daily_nth:
  "i < length xs \<Longrightarrow>
   percent (returns_of xs) ! i =
     (if i = 0 then NaN else fmul (fsub (fdiv (xs ! i) (xs ! (i - 1))) (Fin 1)) (Fin 100))"
  using pct_nth [of i xs] by (simp add: percent_def returns_of_def shift1_length)

lemma daily_fin:
  "0 < i \<Longrightarrow> i < length xs \<Longrightarrow> xs ! i = Fin a \<Longrightarrow> xs ! (i - 1) = Fin b \<Longrightarrow> b \<noteq> 0 \<Longrightarrow>
   percent (returns_of xs) ! i = Fin ((a / b - 1) * 100)"
  by (simp add: daily_nth fsub_def)

lemma pipeline_rows:
  assumes wf: "wf_df (heap s0 ! r0)"
    and n: "process_time_series L (Some r0) s0 = (Inr (Some r1), s1)"
    and c: "getitem (heap s1 ! r1) name = Inr c"
  shows "length c = nrows (heap s1 ! r1) \<and> 0 < nrows (heap s1 ! r1)"
proof -
  from normalized_wf [OF n wf]
  have "wf_df (heap s1 ! r1)" "\<not> empty (heap s1 ! r1)"
    by simp_all
  then show ?thesis
    using wf_getitem_length [OF _ c] by (simp add: empty_def nrows_def)
qed

section \<open>Runs that return\<close>

lemma to_datetime_cells:
  "traverse (to_datetime_cell L) c = Inr c' \<Longrightarrow> \<forall>x \<in> set c'. x = Null \<or> (\<exists>t. x = Stamp t)"
proof (induction c arbitrary: c')
  case Nil
  then show ?case by simp
next
  case (Cons a c)
  then show ?case
    by (cases a) (auto split: sum.splits option.splits)
qed

lemma traverse_dt_field:
  "\<forall>x \<in> set c. x = Null \<or> (\<exists>t. x = Stamp t) \<Longrightarrow> \<exists>ys. traverse (dt_field f) c = Inr ys"
  by (induction c) auto

lemma to_datetime_fields:
  "to_datetime L c = Inr c' \<Longrightarrow> \<exists>ys. traverse (dt_field f) c' = Inr ys"
  using to_datetime_cells traverse_dt_field unfolding to_datetime_def by blast

lemma process_time_series_returns:
  assumes "\<not> empty (heap s ! r)" "getitem (heap s ! r) ''Date'' = Inr c"
    "to_datetime L c = Inr c'"
  shows "\<exists>r1 s1. process_time_series L (Some r) s = (Inr (Some r1), s1)"
proof -
  obtain dow m where "traverse (dt_field (dayofweek L)) c' = Inr dow"
    "traverse (dt_field (month L)) c' = Inr m"
    using to_datetime_fields [OF assms(3)] by blast
  then show ?thesis
    using assms
    by (simp add: process_time_series_def run ret_def in_names_iff set_index_eq getitem_setitem
        index_dayofweek_def index_month_def nth_append index_setitem ffill_def)
qed

lemma ffill_from_numbers:
  "p = None \<or> (\<exists>a. p = Some (Num a)) \<Longrightarrow> \<exists>ys. ffill_from p (map Num xs) = map Num ys"
proof (induction xs arbitrary: p)
  case Nil
  then show ?case by simp
next
  case (Cons x xs)
  have "\<exists>ys. ffill_from q (map Num xs) = map Num ys" if "q = p \<or> q = Some (Num x)" for q
    using that Cons.prems by (intro Cons.IH) auto
  then obtain ys zs where "ffill_from p (map Num xs) = map Num ys"
    "ffill_from (Some (Num x)) (map Num xs) = map Num zs"
    by blast
  then show ?case
    using Cons.prems
    by (auto split: option.splits intro: exI [of _ "_ # _"])
qed

lemma pct_change_numbers: "\<exists>pc. pct_change L (map Num xs) = Inr pc"
proof -
  obtain ys where "ffill_col (map Num xs) = map Num ys"
    using ffill_from_numbers [of None xs] by (auto simp: ffill_col_def)
  then show ?thesis
    by (simp add: pct_change_def to_floats_map_Num)
qed

lemma calculate_basic_metrics_returns:
  assumes "\<not> empty (heap s ! r)" "getitem (heap s ! r) ''Close'' = Inr (map Num close)"
    "getitem (heap s ! r) ''Volume'' = Inr (map Num volume)"
  shows "\<exists>r2 s2. calculate_basic_metrics L (Some r) s = (Inr (Some r2), s2)"
proof -
  obtain pc vc where "pct_change L (map Num close) = Inr pc"
    "pct_change L (map Num volume) = Inr vc"
    using pct_change_numbers by blast
  then show ?thesis
    using assms
    by (simp add: calculate_basic_metrics_def run ret_def getitem_setitem nth_append
        to_floats_map_Num' to_floats_map_Num rolling_std_def rolling_mean_def comp_def)
qed

section \<open>The sample tables\<close>

lemma to_datetime_stamps: "to_datetime L (map (\<lambda>i. Stamp (f i)) is) = Inr (map (\<lambda>i. Stamp (f i)) is)"
  by (induction "is") (simp_all add: to_datetime_def)

lemma daily_table_wf: "wf_df (daily_table close)"
  by (simp add: wf_df_def daily_table_def column_names_def nrows_def)

lemma daily_table_columns:
  "getitem (daily_table close) ''Date'' =
     Inr (map (\<lambda>i. Stamp (int i * day_ns)) [0..<length close])"
  "getitem (daily_table close) ''Close'' = Inr close"
  "getitem (daily_table close) ''Volume'' = Inr (replicate (length close) (Num (Fin 1000)))"
  by (simp_all add: getitem_def daily_table_def)

lemma map_Num_eq: "map Num xs = map Num ys \<longleftrightarrow> xs = ys"
  by (simp add: inj_map_eq_map inj_def)

lemma ffill_from_no_na: "\<forall>x \<in> set c. \<not> isna x \<Longrightarrow> ffill_from p c = c"
  by (induction c arbitrary: p) auto

lemma ffill_col_no_na: "\<forall>x \<in> set c. \<not> isna x \<Longrightarrow> ffill_col c = c"
  by (simp add: ffill_col_def ffill_from_no_na)

text \<open>
  The pipeline returns on every non-empty sample table whose closing prices are numbers. The
  world holds the table at reference 0; \<open>process_time_series\<close> makes the objects 1 to 3
  and returns the last, \<open>calculate_basic_metrics\<close> makes and returns object 4.
\<close>

lemma daily_table_runs:
  assumes "xs \<noteq> []"
  shows "\<exists>s1 s2.
     process_time_series L (Some 0) (world_of (daily_table (map Num xs))) = (Inr (Some 3), s1) \<and>
     calculate_basic_metrics L (Some 3) s1 = (Inr (Some 4), s2) \<and>
     pipeline L (Some 0) (world_of (daily_table (map Num xs))) = (Inr (Some 4), s2) \<and>
     getitem (heap s1 ! 3) ''Close'' = Inr (ffill_col (map Num xs))"
proof -
  let ?t = "daily_table (map Num xs)"
  let ?w = "world_of ?t"
  have t: "heap ?w ! 0 = ?t"
    by (simp add: world_of_def)
  have ne: "\<not> empty (heap ?w ! 0)"
    using assms by (simp add: t) (simp add: empty_def daily_table_def)
  let ?dates = "map (\<lambda>i. Stamp (int i * day_ns)) [0..<length (map Num xs)]"
  have d: "getitem (heap ?w ! 0) ''Date'' = Inr ?dates"
    unfolding t by (rule daily_table_columns)
  have "to_datetime L ?dates = Inr ?dates"
    by (rule to_datetime_stamps)
  from process_time_series_returns [OF ne d this]
  obtain r1 s1 where n: "process_time_series L (Some 0) ?w = (Inr (Some r1), s1)"
    by blast
  have r1: "r1 = 3" "length (heap s1) = 4"
    using process_time_series_SomeD [OF n] by (auto simp: world_of_def)
  have close: "getitem (heap s1 ! r1) ''Close'' = Inr (ffill_col (map Num xs))"
    using normalized_column [OF n, of "''Close''"] by (simp add: t daily_table_columns)
  have volume: "getitem (heap s1 ! r1) ''Volume'' =
      Inr (ffill_col (replicate (length xs) (Num (Fin 1000))))"
    using normalized_column [OF n, of "''Volume''"] by (simp add: t daily_table_columns)
  obtain ys where ys: "ffill_col (map Num xs) = map Num ys"
    using ffill_from_numbers [of None xs] by (auto simp: ffill_col_def)
  have vs: "ffill_col (replicate (length xs) (Num (Fin 1000))) =
      map Num (replicate (length xs) (Fin 1000))"
    by (simp add: ffill_col_no_na)
  have ne1: "\<not> empty (heap s1 ! r1)"
    using normalized_wf [OF n] by (simp add: t daily_table_wf)
  obtain r2 s2 where a: "calculate_basic_metrics L (Some r1) s1 = (Inr (Some r2), s2)"
    using calculate_basic_metrics_returns [OF ne1, of ys "replicate (length xs) (Fin 1000)" L]
      close volume
    unfolding ys vs by blast
  have r2: "r2 = 4"
    using calculate_basic_metrics_SomeD [OF a] r1 by auto
  have "pipeline L (Some 0) ?w = (Inr (Some r2), s2)"
    using n a by (simp add: pipeline_def seq_def)
  then show ?thesis
    using n a close unfolding r1 r2 by blast
qed

section \<open>The derived series\<close>

lemma compound_length: "length (compound dr) = length dr"
  by (simp add: compound_def cumprod_def cumprod_from_length)

lemma compound_nan: "i < length dr \<Longrightarrow> dr ! i = NaN \<Longrightarrow> compound dr ! i = NaN"
  by (simp add: compound_def cumprod_def cumprod_from_length cumprod_from_nan fl_ops_nan)

lemma compound_fin:
  assumes "0 < i" "i < length dr" "dr ! 0 = NaN"
    "\<forall>k. 1 \<le> k \<and> k \<le> i \<longrightarrow> dr ! k = Fin (g k)"
  shows "compound dr ! i = Fin (((\<Prod>k = 1..i. 1 + g k / 100) - 1) * 100)"
proof -
  let ?ys = "map (\<lambda>x. fadd (Fin 1) (fdiv x (Fin 100))) dr"
  have "0 < length dr"
    using assms(2) by (cases dr) auto
  then have "cumprod ?ys ! i = Fin (\<Prod>k = 1..i. 1 + g k / 100)"
    using assms by (intro cumprod_after_nan) (auto simp: fl_ops_nan)
  then show ?thesis
    using assms(2) by (simp add: compound_def cumprod_def cumprod_from_length fsub_def)
qed

lemma volatility_early:
  assumes "i < length close" "i < 20"
  shows "rolling 20 std 1 (percent (returns_of close)) ! i = NaN"
proof -
  have "0 < length close"
    using assms(1) by (cases close) auto
  then have "percent (returns_of close) ! 0 = NaN"
    by (simp add: daily_nth)
  then show ?thesis
    using assms by (intro rolling_missing [where k = 0]) (simp_all add: percent_length returns_of_length)
qed

lemma volatility_full:
  assumes "19 \<le> i" "i < length dr" "\<forall>k. i - 19 \<le> k \<and> k \<le> i \<longrightarrow> dr ! k = Fin (g k)"
  shows "rolling 20 std 1 dr ! i =
     Fin (sqrt ((\<Sum>k = i - 19..i. (g k - (\<Sum>j = i - 19..i. g j) / 20)\<^sup>2) / 19))"
proof -
  have "rolling 20 std 1 dr ! i = Fin (std (map g [i + 1 - 20..<i + 1]))"
    using assms by (intro rolling_full) auto
  moreover have "i + 1 - 20 = i - 19" "{i - 19..<i + 1} = {i - 19..i}"
    by auto
  moreover have "real (i + 1 - (i - 19)) = 20" "real (i + 1 - (i - 19) - 1) = 19"
    using assms(1) by auto
  ultimately show ?thesis
    by (simp only: std_upt)
qed

lemma daily_finite:
  assumes "0 < k" "k < length close" "close ! k = Fin a" "close ! (k - 1) = Fin b" "b \<noteq> 0"
  shows "\<exists>x. percent (returns_of close) ! k = Fin x"
  using daily_fin [OF assms] by blast

lemma moving_average_full:
  assumes "0 < w" "w \<le> i + 1" "i < length xs"
    "\<forall>k. i + 1 - w \<le> k \<and> k \<le> i \<longrightarrow> xs ! k = Fin (g k)"
  shows "rolling w mean 0 xs ! i = Fin ((\<Sum>k = i + 1 - w..i. g k) / real w)"
proof -
  have "rolling w mean 0 xs ! i = Fin (mean (map g [i + 1 - w..<i + 1]))"
    using assms by (intro rolling_full) auto
  moreover have "{i + 1 - w..<i + 1} = {i + 1 - w..i}"
    by auto
  moreover have "real (i + 1 - (i + 1 - w)) = real w"
    using assms(2) by auto
  ultimately show ?thesis
    by (simp only: mean_upt)
qed

text \<open>The columns computed for a sample table whose closing prices forward fill leaves alone.\<close>

lemma daily_table_series:
  assumes "xs \<noteq> []" "ffill_col (map Num xs) = map Num xs"
  shows "\<exists>s1 s2.
     process_time_series L (Some 0) (world_of (daily_table (map Num xs))) = (Inr (Some 3), s1) \<and>
     calculate_basic_metrics L (Some 3) s1 = (Inr (Some 4), s2) \<and>
     pipeline L (Some 0) (world_of (daily_table (map Num xs))) = (Inr (Some 4), s2) \<and>
     getitem (heap s2 ! 4) ''Close'' = Inr (map Num xs) \<and>
     getitem (heap s2 ! 4) ''Daily_Return'' = Inr (map Num (percent (returns_of xs))) \<and>
     getitem (heap s2 ! 4) ''Cum_Return'' = Inr (map Num (compound (percent (returns_of xs)))) \<and>
     getitem (heap s2 ! 4) ''Volatility_20d'' =
       Inr (map Num (rolling 20 std 1 (percent (returns_of xs)))) \<and>
     getitem (heap s2 ! 4) ''5d_MA'' = Inr (map Num (rolling 5 mean 0 xs)) \<and>
     getitem (heap s2 ! 4) ''20d_MA'' = Inr (map Num (rolling 20 mean 0 xs)) \<and>
     getitem (heap s2 ! 4) ''50d_MA'' = Inr (map Num (rolling 50 mean 0 xs))"
proof -
  let ?w = "world_of (daily_table (map Num xs))"
  obtain s1 s2 where
    n: "process_time_series L (Some 0) ?w = (Inr (Some 3), s1)"
    and a: "calculate_basic_metrics L (Some 3) s1 = (Inr (Some 4), s2)"
    and p: "pipeline L (Some 0) ?w = (Inr (Some 4), s2)"
    and c: "getitem (heap s1 ! 3) ''Close'' = Inr (ffill_col (map Num xs))"
    using daily_table_runs [OF assms(1), of L] by auto
  from pipeline_columns [OF n a] obtain close where
    close: "getitem (heap s1 ! 3) ''Close'' = Inr (map Num close)"
    and cols: "getitem (heap s2 ! 4) ''Close'' = Inr (map Num close)"
     "getitem (heap s2 ! 4) ''Daily_Return'' = Inr (map Num (percent (returns_of close)))"
     "getitem (heap s2 ! 4) ''Cum_Return'' =
        Inr (map Num (compound (percent (returns_of close))))"
     "getitem (heap s2 ! 4) ''Volatility_20d'' =
        Inr (map Num (rolling 20 std 1 (percent (returns_of close))))"
     "getitem (heap s2 ! 4) ''5d_MA'' = Inr (map Num (rolling 5 mean 0 close))"
     "getitem (heap s2 ! 4) ''20d_MA'' = Inr (map Num (rolling 20 mean 0 close))"
     "getitem (heap s2 ! 4) ''50d_MA'' = Inr (map Num (rolling 50 mean 0 close))"
    by blast
  have "map Num close = map Num xs"
    using c close assms(2) by simp
  then have "close = xs"
    by (simp only: map_Num_eq)
  then show ?thesis
    using n a p cols by blast
qed

lemma ffill_col_numbers: "\<forall>x \<in> set xs. x \<noteq> NaN \<Longrightarrow> ffill_col (map Num xs) = map Num xs"
proof (rule ffill_col_no_na, rule ballI)
  fix c
  assume "\<forall>x \<in> set xs. x \<noteq> NaN" "c \<in> set (map Num xs)"
  then obtain x where "c = Num x" "x \<noteq> NaN"
    by auto
  then show "\<not> isna c"
    by (cases x) auto
qed

lemma ffill_col_leading_nan:
  "\<forall>x \<in> set xs. x \<noteq> NaN \<Longrightarrow> ffill_col (map Num (NaN # xs)) = map Num (NaN # xs)"
  using ffill_col_numbers [of xs] by (simp add: ffill_col_def)

lemma daily_table_world:
  "heap (world_of (daily_table c)) ! 0 = daily_table c"
  by (simp add: world_of_def)

lemma process_time_series_no_date:
  assumes "\<not> empty (heap s ! r)" "''Date'' \<notin> set (column_names (heap s ! r))"
  shows "fst (process_time_series L (Some r) s) = Inl (KeyError ''Date'')"
proof -
  have "getitem (heap s ! r) ''Date'' = Inl (KeyError ''Date'')"
    using assms(2) by (auto simp: in_names_iff getitem_def split: option.splits)
  then show ?thesis
    using assms by (simp add: process_time_series_def run set_index_eq)
qed

lemma calculate_basic_metrics_no_close:
  assumes "\<not> empty (heap s ! r)" "''Close'' \<notin> set (column_names (heap s ! r))"
  shows "fst (calculate_basic_metrics L (Some r) s) = Inl (KeyError ''Close'')"
proof -
  have "getitem (heap s ! r) ''Close'' = Inl (KeyError ''Close'')"
    using assms(2) by (auto simp: in_names_iff getitem_def split: option.splits)
  then show ?thesis
    using assms by (simp add: calculate_basic_metrics_def run)
qed

lemma to_datetime_stamp_list:
  "\<forall>x \<in> set c. \<exists>t. x = Stamp t \<Longrightarrow> to_datetime L c = Inr c"
  unfolding to_datetime_def by (induction c) auto

lemma daily_table_valid:
  assumes "close \<noteq> []"
  shows "wf_df (heap (world_of (daily_table close)) ! 0)"
    "\<not> empty (heap (world_of (daily_table close)) ! 0)"
    "getitem (heap (world_of (daily_table close)) ! 0) ''Date'' =
       Inr (map (\<lambda>i. Stamp (int i * day_ns)) [0..<length close])"
    "to_datetime L (map (\<lambda>i. Stamp (int i * day_ns)) [0..<length close]) =
       Inr (map (\<lambda>i. Stamp (int i * day_ns)) [0..<length close])"
proof -
  show "wf_df (heap (world_of (daily_table close)) ! 0)"
    by (simp only: daily_table_world daily_table_wf)
  show "\<not> empty (heap (world_of (daily_table close)) ! 0)"
    using assms by (simp add: daily_table_world) (simp add: empty_def daily_table_def)
  show "getitem (heap (world_of (daily_table close)) ! 0) ''Date'' =
       Inr (map (\<lambda>i. Stamp (int i * day_ns)) [0..<length close])"
    unfolding daily_table_world by (rule daily_table_columns)
  show "to_datetime L (map (\<lambda>i. Stamp (int i * day_ns)) [0..<length close]) =
       Inr (map (\<lambda>i. Stamp (int i * day_ns)) [0..<length close])"
    by (rule to_datetime_stamps)
qed

section \<open>Evaluating the samples\<close>

lemma process_time_series_ref:
  "process_time_series L df s = (Inr (Some r1), s1) \<Longrightarrow> r1 = length (heap s) + 2"
  using process_time_series_SomeD by blast

lemma calculate_basic_metrics_ref:
  "calculate_basic_metrics L df s = (Inr (Some r2), s2) \<Longrightarrow> r2 = length (heap s)"
  using calculate_basic_metrics_SomeD [of L df s r2 s2] by auto

lemma list_of_three: "length xs = 3 \<Longrightarrow> xs = [xs ! 0, xs ! 1, xs ! 2]"
  by (auto simp: length_Suc_conv numeral_3_eq_3)

lemma sum_successors:
  "a \<le> b \<Longrightarrow> (\<Sum>k = a..b. real k + 1) = (real b - real a + 1) * (real a + real b + 2) / 2"
proof (induction b rule: dec_induct)
  case base
  then show ?case by simp
next
  case (step n)
  then show ?case
    by (simp add: field_simps)
qed

lemma mean_successors:
  assumes "0 < w" "w \<le> i + 1"
  shows "(\<Sum>k = i + 1 - w..i. real k + 1) / real w = real i + (3 - real w) / 2"
proof -
  have "i + 1 - w \<le> i"
    using assms by simp
  then have "(\<Sum>k = i + 1 - w..i. real k + 1) =
      (real i - real (i + 1 - w) + 1) * (real (i + 1 - w) + real i + 2) / 2"
    by (rule sum_successors)
  moreover have "real (i + 1 - w) = real i + 1 - real w"
    using assms by (simp add: of_nat_diff)
  ultimately have "(\<Sum>k = i + 1 - w..i. real k + 1) = real w * (2 * real i + 3 - real w) / 2"
    by (simp add: algebra_simps)
  then show ?thesis
    using assms by (simp add: field_simps)
qed

lemma linear_closes:
  "map (\<lambda>k. Fin (real k + 1)) [0..<50] \<noteq> []"
  "ffill_col (map Num (map (\<lambda>k. Fin (real k + 1)) [0..<50])) =
     map Num (map (\<lambda>k. Fin (real k + 1)) [0..<50])"
  "length (map (\<lambda>k. Fin (real k + 1)) [0..<50]) = 50"
  "k < 50 \<Longrightarrow> map (\<lambda>k. Fin (real k + 1)) [0..<50] ! k = Fin (real k + 1)"
proof -
  show "map (\<lambda>k. Fin (real k + 1)) [0..<50] \<noteq> []"
    by simp
  show "ffill_col (map Num (map (\<lambda>k. Fin (real k + 1)) [0..<50])) =
     map Num (map (\<lambda>k. Fin (real k + 1)) [0..<50])"
    by (rule ffill_col_numbers) auto
  show "length (map (\<lambda>k. Fin (real k + 1)) [0..<50]) = 50"
    by simp
  show "k < 50 \<Longrightarrow> map (\<lambda>k. Fin (real k + 1)) [0..<50] ! k = Fin (real k + 1)"
    by simp
qed

lemma trailing_mean_column:
  assumes len: "length ma = 50" and w: "0 < w"
    and early: "\<forall>i. i < 50 \<and> i + 1 < w \<longrightarrow> ma ! i = NaN"
    and full: "\<forall>i g. w \<le> i + 1 \<and> i < 50 \<and>
             (\<forall>k. i + 1 - w \<le> k \<and> k \<le> i \<longrightarrow> xs ! k = Fin (g k)) \<longrightarrow>
           ma ! i = Fin ((\<Sum>k = i + 1 - w..i. g k) / real w)"
    and xs: "\<And>k. k < 50 \<Longrightarrow> xs ! k = Fin (real k + 1)"
  shows "ma = map (\<lambda>i. if i + 1 < w then NaN else Fin (real i + (3 - real w) / 2)) [0..<50]"
proof (rule nth_equalityI)
  show "length ma =
      length (map (\<lambda>i. if i + 1 < w then NaN else Fin (real i + (3 - real w) / 2)) [0..<50])"
    using len by simp
  fix i
  assume "i < length ma"
  then have i: "i < 50"
    using len by simp
  show "ma ! i =
      map (\<lambda>i. if i + 1 < w then NaN else Fin (real i + (3 - real w) / 2)) [0..<50] ! i"
  proof (cases "i + 1 < w")
    case True
    then show ?thesis
      using early i by simp
  next
    case False
    have "\<forall>k. i + 1 - w \<le> k \<and> k \<le> i \<longrightarrow> xs ! k = Fin (real k + 1)"
      using i xs by simp
    then have "ma ! i = Fin ((\<Sum>k = i + 1 - w..i. real k + 1) / real w)"
      using full [rule_format, of i "\<lambda>k. real k + 1"] False i by simp
    moreover have "(\<Sum>k = i + 1 - w..i. real k + 1) / real w = real i + (3 - real w) / 2"
      using False w by (intro mean_successors) simp_all
    ultimately show ?thesis
      using False i by simp
  qed
qed

lemma linear_columns:
  "map (\<lambda>i. if i + 1 < 5 then NaN else Fin (real i + (3 - real 5) / 2)) [0..<50] =
     map (\<lambda>i. if i < 4 then NaN else Fin (real i - 1)) [0..<50]"
  "map (\<lambda>i. if i + 1 < 20 then NaN else Fin (real i + (3 - real 20) / 2)) [0..<50] =
     map (\<lambda>i. if i < 19 then NaN else Fin (real i - 17 / 2)) [0..<50]"
  "map (\<lambda>i. if i + 1 < 50 then NaN else Fin (real i + (3 - real 50) / 2)) [0..<50] =
     map (\<lambda>i. if i < 49 then NaN else Fin (51 / 2)) [0..<50]"
proof -
  show "map (\<lambda>i. if i + 1 < 5 then NaN else Fin (real i + (3 - real 5) / 2)) [0..<50] =
     map (\<lambda>i. if i < 4 then NaN else Fin (real i - 1)) [0..<50]"
    by (rule map_cong) auto
  show "map (\<lambda>i. if i + 1 < 20 then NaN else Fin (real i + (3 - real 20) / 2)) [0..<50] =
     map (\<lambda>i. if i < 19 then NaN else Fin (real i - 17 / 2)) [0..<50]"
    by (rule map_cong) auto
  show "map (\<lambda>i. if i + 1 < 50 then NaN else Fin (real i + (3 - real 50) / 2)) [0..<50] =
     map (\<lambda>i. if i < 49 then NaN else Fin (51 / 2)) [0..<50]"
  proof (rule map_cong)
    fix i :: nat
    assume "i \<in> set [0..<50]"
    then have "49 \<le> i \<Longrightarrow> real i = 49"
      by auto
    then show "(if i + 1 < 50 then NaN else Fin (real i + (3 - real 50) / 2)) =
        (if i < 49 then NaN else Fin (51 / 2))"
      by auto
  qed simp
qed

lemma world_of_heap: "length (heap (world_of d)) = 1"
  by (simp add: world_of_def)

section \<open>Absent and empty inputs\<close>

text \<open>
  Claim C8. On \<open>None\<close> and on an empty table, \<open>process_time_series\<close> and
  \<open>calculate_basic_metrics\<close> return \<open>None\<close>: no exception, and the world (the objects and
  the printed lines) is as it was.
\<close>

theorem absent_passthrough:
  "df = None \<or> (\<exists>r. df = Some r \<and> empty (heap s ! r)) \<Longrightarrow>
   process_time_series L df s = (Inr None, s) \<and>
   calculate_basic_metrics L df s = (Inr None, s)"
  by (auto simp: process_time_series_def calculate_basic_metrics_def run ret_def)

theorem absent_passthrough_witness:
  "process_time_series sample_pandas (Some 0) (world_of (daily_table [])) =
     (Inr None, world_of (daily_table [])) \<and>
   calculate_basic_metrics sample_pandas (Some 0) (world_of (daily_table [])) =
     (Inr None, world_of (daily_table [])) \<and>
   process_time_series sample_pandas None (world_of (daily_table [Num (Fin 1)])) =
     (Inr None, world_of (daily_table [Num (Fin 1)])) \<and>
   calculate_basic_metrics sample_pandas None (world_of (daily_table [Num (Fin 1)])) =
     (Inr None, world_of (daily_table [Num (Fin 1)]))"
proof -
  have "empty (heap (world_of (daily_table [])) ! 0)"
    by (simp add: world_of_def daily_table_def empty_def)
  then show ?thesis
    using absent_passthrough [of "Some 0" "world_of (daily_table [])" sample_pandas]
      absent_passthrough [of None "world_of (daily_table [Num (Fin 1)])" sample_pandas]
    by simp
qed

section \<open>The input is not changed\<close>

lemma process_time_series_prefix:
  "prefix (heap s) (heap (snd (process_time_series L df s)))"
  by (auto simp: process_time_series_def run ret_def list_update_append nth_append
        split: option.splits sum.splits)

lemma calculate_basic_metrics_prefix:
  "prefix (heap s) (heap (snd (calculate_basic_metrics L df s)))"
  by (auto simp: calculate_basic_metrics_def run ret_def list_update_append nth_append
        split: option.splits sum.splits)

text \<open>
  Claim C10. Neither function changes its input table: every object that exists before
  the call, the argument's among them, is the same after it, whether the call returns or
  raises.
\<close>

theorem input_unchanged:
  "r < length (heap s) \<Longrightarrow>
   heap (snd (process_time_series L (Some r) s)) ! r = heap s ! r \<and>
   heap (snd (calculate_basic_metrics L (Some r) s)) ! r = heap s ! r \<and>
   prefix (heap s) (heap (snd (process_time_series L df s))) \<and>
   prefix (heap s) (heap (snd (calculate_basic_metrics L df s)))"
proof -
  assume r: "r < length (heap s)"
  have nth: "ys ! r = heap s ! r" if "prefix (heap s) ys" for ys
    using that r by (auto simp: prefix_def nth_append)
  show ?thesis
    using nth [OF process_time_series_prefix] nth [OF calculate_basic_metrics_prefix]
      process_time_series_prefix calculate_basic_metrics_prefix
    by blast
qed

theorem input_unchanged_witness:
  "heap (snd (process_time_series sample_pandas (Some 0)
       (world_of (daily_table [Num (Fin 1), Num (Fin 2)])))) ! 0 =
     daily_table [Num (Fin 1), Num (Fin 2)] \<and>
   heap (snd (calculate_basic_metrics sample_pandas (Some 0)
       (world_of (daily_table [Num (Fin 1), Num (Fin 2)])))) ! 0 =
     daily_table [Num (Fin 1), Num (Fin 2)]"
  using input_unchanged [of 0 "world_of (daily_table [Num (Fin 1), Num (Fin 2)])"
      sample_pandas None]
  by (simp add: world_of_def)

section \<open>Daily return\<close>

text \<open>
  Claim C1. In the table that \<open>calculate_basic_metrics\<close> returns for a normalized table,
  \<open>Daily_Return\<close> at row 0 is \<^verbatim>\<open>NaN\<close> and at every later row \<open>i\<close> it is
  \<open>(Close[i] / Close[i-1] - 1) * 100\<close>: in the arithmetic of floats for all cells, and as
  the real number when both prices are finite and the earlier one is not zero.
\<close>

theorem daily_return:
  assumes "wf_df (heap s0 ! r0)"
    and "process_time_series L (Some r0) s0 = (Inr (Some r1), s1)"
    and "calculate_basic_metrics L (Some r1) s1 = (Inr (Some r2), s2)"
  shows "\<exists>close dr.
     getitem (heap s1 ! r1) ''Close'' = Inr (map Num close) \<and>
     getitem (heap s2 ! r2) ''Close'' = Inr (map Num close) \<and>
     getitem (heap s2 ! r2) ''Daily_Return'' = Inr (map Num dr) \<and>
     length close = nrows (heap s1 ! r1) \<and> length dr = length close \<and> 0 < length close \<and>
     dr ! 0 = NaN \<and>
     (\<forall>i. 0 < i \<and> i < length close \<longrightarrow>
        dr ! i = fmul (fsub (fdiv (close ! i) (close ! (i - 1))) (Fin 1)) (Fin 100)) \<and>
     (\<forall>i a b. 0 < i \<and> i < length close \<and> close ! i = Fin a \<and> close ! (i - 1) = Fin b \<and> b \<noteq> 0 \<longrightarrow>
        dr ! i = Fin ((a / b - 1) * 100))"
proof -
  from pipeline_columns [OF assms(2,3)]
  obtain close where close: "getitem (heap s1 ! r1) ''Close'' = Inr (map Num close)"
    "getitem (heap s2 ! r2) ''Close'' = Inr (map Num close)"
    and dr: "getitem (heap s2 ! r2) ''Daily_Return'' = Inr (map Num (percent (returns_of close)))"
    by blast
  have rows: "length close = nrows (heap s1 ! r1)" "0 < nrows (heap s1 ! r1)"
    using pipeline_rows [OF assms(1,2) close(1)] by simp_all
  show ?thesis
    by (rule exI [of _ close], rule exI [of _ "percent (returns_of close)"])
      (use close dr rows in
        \<open>simp add: percent_length returns_of_length daily_nth fsub_def left_diff_distrib\<close>)
qed

theorem daily_return_witness:
  "fst (pipeline sample_pandas (Some 0)
      (world_of (daily_table (map Num [Fin 100, Fin 110, Fin 99])))) = Inr (Some 4) \<and>
   getitem (heap (snd (pipeline sample_pandas (Some 0)
      (world_of (daily_table (map Num [Fin 100, Fin 110, Fin 99]))))) ! 4) ''Daily_Return'' =
     Inr (map Num [NaN, Fin 10, Fin (- 10)])"
proof -
  let ?xs = "[Fin 100, Fin 110, Fin 99]"
  let ?w = "world_of (daily_table (map Num ?xs))"
  have ne: "?xs \<noteq> []"
    by simp
  have same: "ffill_col (map Num ?xs) = map Num ?xs"
    by (rule ffill_col_numbers) simp
  from daily_table_series [OF ne same, of sample_pandas]
  obtain s1 s2 where
    n: "process_time_series sample_pandas (Some 0) ?w = (Inr (Some 3), s1)"
    and a: "calculate_basic_metrics sample_pandas (Some 3) s1 = (Inr (Some 4), s2)"
    and p: "pipeline sample_pandas (Some 0) ?w = (Inr (Some 4), s2)"
    and c: "getitem (heap s2 ! 4) ''Close'' = Inr (map Num ?xs)"
    by blast
  have wf: "wf_df (heap ?w ! 0)"
    by (simp only: daily_table_world daily_table_wf)
  from daily_return [OF wf n a]
  obtain close dr where close: "getitem (heap s2 ! 4) ''Close'' = Inr (map Num close)"
    and dr: "getitem (heap s2 ! 4) ''Daily_Return'' = Inr (map Num dr)"
    and len: "length dr = length close"
    and first: "dr ! 0 = NaN"
    and fin: "\<forall>i a b. 0 < i \<and> i < length close \<and> close ! i = Fin a \<and>
        close ! (i - 1) = Fin b \<and> b \<noteq> 0 \<longrightarrow> dr ! i = Fin ((a / b - 1) * 100)"
    by blast
  have "map Num close = map Num ?xs"
    using c close by simp
  then have eq: "close = ?xs"
    by (simp only: map_Num_eq)
  have "dr ! 1 = Fin 10" "dr ! 2 = Fin (- 10)"
    using fin [rule_format, of 1 110 100] fin [rule_format, of 2 99 110]
    by (simp_all add: eq)
  moreover have "length dr = 3"
    using len by (simp add: eq)
  ultimately have "dr = [NaN, Fin 10, Fin (- 10)]"
    using first list_of_three [of dr] by simp
  then show ?thesis
    using p dr by simp
qed

section \<open>Rolling volatility\<close>

text \<open>
  Claim C2, as amended. \<open>Volatility_20d\<close> at row \<open>i\<close> is the sample standard deviation
  (divisor 19) of \<open>Daily_Return\<close> over the rows \<open>i - 19\<close> to \<open>i\<close> when these twenty
  returns are finite, which they are when the prices of the rows \<open>i - 20\<close> to \<open>i\<close> are
  finite and not zero. It is \<^verbatim>\<open>NaN\<close> at every row before row 20, since the return of
  row 0 is missing, and wherever a return in the window is not finite.
\<close>

theorem volatility_20d:
  assumes "wf_df (heap s0 ! r0)"
    and "process_time_series L (Some r0) s0 = (Inr (Some r1), s1)"
    and "calculate_basic_metrics L (Some r1) s1 = (Inr (Some r2), s2)"
  shows "\<exists>close dr vol.
     getitem (heap s2 ! r2) ''Close'' = Inr (map Num close) \<and>
     getitem (heap s2 ! r2) ''Daily_Return'' = Inr (map Num dr) \<and>
     getitem (heap s2 ! r2) ''Volatility_20d'' = Inr (map Num vol) \<and>
     length close = nrows (heap s1 ! r1) \<and> length dr = length close \<and> length vol = length close \<and>
     (\<forall>i. i < length close \<and> i < 20 \<longrightarrow> vol ! i = NaN) \<and>
     (\<forall>i g. 20 \<le> i \<and> i < length close \<and> (\<forall>k. i - 19 \<le> k \<and> k \<le> i \<longrightarrow> dr ! k = Fin (g k)) \<longrightarrow>
        vol ! i = Fin (sqrt ((\<Sum>k = i - 19..i. (g k - (\<Sum>j = i - 19..i. g j) / 20)\<^sup>2) / 19))) \<and>
     (\<forall>i. 20 \<le> i \<and> i < length close \<and>
          (\<forall>k. i - 20 \<le> k \<and> k \<le> i \<longrightarrow> (\<exists>a. close ! k = Fin a \<and> a \<noteq> 0)) \<longrightarrow>
        (\<exists>v. vol ! i = Fin v)) \<and>
     (\<forall>i k. i < length close \<and> k \<le> i \<and> i < k + 20 \<and> (\<forall>a. dr ! k \<noteq> Fin a) \<longrightarrow> vol ! i = NaN)"
proof -
  from pipeline_columns [OF assms(2,3)]
  obtain close where close: "getitem (heap s1 ! r1) ''Close'' = Inr (map Num close)"
    "getitem (heap s2 ! r2) ''Close'' = Inr (map Num close)"
    and dr: "getitem (heap s2 ! r2) ''Daily_Return'' = Inr (map Num (percent (returns_of close)))"
    and vol: "getitem (heap s2 ! r2) ''Volatility_20d'' =
       Inr (map Num (rolling 20 std 1 (percent (returns_of close))))"
    by blast
  let ?dr = "percent (returns_of close)"
  let ?vol = "rolling 20 std 1 ?dr"
  have len: "length ?dr = length close" "length ?vol = length close"
    by (simp_all add: rolling_length percent_length returns_of_length)
  have rows: "length close = nrows (heap s1 ! r1)"
    using pipeline_rows [OF assms(1,2) close(1)] by simp
  have early: "\<forall>i. i < length close \<and> i < 20 \<longrightarrow> ?vol ! i = NaN"
    using volatility_early by blast
  have full: "\<forall>i g. 20 \<le> i \<and> i < length close \<and>
      (\<forall>k. i - 19 \<le> k \<and> k \<le> i \<longrightarrow> ?dr ! k = Fin (g k)) \<longrightarrow>
      ?vol ! i = Fin (sqrt ((\<Sum>k = i - 19..i. (g k - (\<Sum>j = i - 19..i. g j) / 20)\<^sup>2) / 19))"
  proof (intro allI impI, elim conjE)
    fix i g
    assume "20 \<le> i" "i < length close" "\<forall>k. i - 19 \<le> k \<and> k \<le> i \<longrightarrow> ?dr ! k = Fin (g k)"
    then show "?vol ! i =
        Fin (sqrt ((\<Sum>k = i - 19..i. (g k - (\<Sum>j = i - 19..i. g j) / 20)\<^sup>2) / 19))"
      by (intro volatility_full) (simp_all add: len)
  qed
  have defined: "\<forall>i. 20 \<le> i \<and> i < length close \<and>
      (\<forall>k. i - 20 \<le> k \<and> k \<le> i \<longrightarrow> (\<exists>a. close ! k = Fin a \<and> a \<noteq> 0)) \<longrightarrow>
      (\<exists>v. ?vol ! i = Fin v)"
  proof (intro allI impI, elim conjE)
    fix i
    assume i: "20 \<le> i" "i < length close"
      and fin: "\<forall>k. i - 20 \<le> k \<and> k \<le> i \<longrightarrow> (\<exists>a. close ! k = Fin a \<and> a \<noteq> 0)"
    have "\<exists>x. ?dr ! k = Fin x" if k: "i - 19 \<le> k" "k \<le> i" for k
    proof -
      have "i - 20 \<le> k - 1" "k - 1 \<le> i" "i - 20 \<le> k" "0 < k" "k < length close"
        using k i by auto
      then obtain a b where "close ! k = Fin a" "close ! (k - 1) = Fin b" "b \<noteq> 0"
        using fin k by metis
      then show ?thesis
        using \<open>0 < k\<close> \<open>k < length close\<close> by (intro daily_finite)
    qed
    then obtain g where "\<forall>k. i - 19 \<le> k \<and> k \<le> i \<longrightarrow> ?dr ! k = Fin (g k)"
      by metis
    then show "\<exists>v. ?vol ! i = Fin v"
      using full i by blast
  qed
  have missing: "\<forall>i k. i < length close \<and> k \<le> i \<and> i < k + 20 \<and> (\<forall>a. ?dr ! k \<noteq> Fin a) \<longrightarrow>
      ?vol ! i = NaN"
    using rolling_missing [of _ ?dr _ 20 std 1] by (simp only: len) blast
  show ?thesis
    by (rule exI [of _ close], rule exI [of _ ?dr], rule exI [of _ ?vol], intro conjI)
      (fact close(2) dr vol len rows early full defined missing)+
qed

theorem volatility_20d_witness:
  "fst (pipeline sample_pandas (Some 0)
      (world_of (daily_table (map Num (replicate 21 (Fin 100)))))) = Inr (Some 4) \<and>
   getitem (heap (snd (pipeline sample_pandas (Some 0)
      (world_of (daily_table (map Num (replicate 21 (Fin 100))))))) ! 4) ''Volatility_20d'' =
     Inr (map Num (replicate 20 NaN @ [Fin 0]))"
proof -
  let ?xs = "replicate 21 (Fin 100)"
  let ?w = "world_of (daily_table (map Num ?xs))"
  have ne: "?xs \<noteq> []"
    by simp
  have same: "ffill_col (map Num ?xs) = map Num ?xs"
    by (rule ffill_col_numbers) simp
  from daily_table_series [OF ne same, of sample_pandas]
  obtain s1 s2 where
    n: "process_time_series sample_pandas (Some 0) ?w = (Inr (Some 3), s1)"
    and a: "calculate_basic_metrics sample_pandas (Some 3) s1 = (Inr (Some 4), s2)"
    and p: "pipeline sample_pandas (Some 0) ?w = (Inr (Some 4), s2)"
    and c: "getitem (heap s2 ! 4) ''Close'' = Inr (map Num ?xs)"
    and d: "getitem (heap s2 ! 4) ''Daily_Return'' = Inr (map Num (percent (returns_of ?xs)))"
    by blast
  have wf: "wf_df (heap ?w ! 0)"
    by (simp only: daily_table_world daily_table_wf)
  from volatility_20d [OF wf n a]
  obtain close dr vol where close: "getitem (heap s2 ! 4) ''Close'' = Inr (map Num close)"
    and dr: "getitem (heap s2 ! 4) ''Daily_Return'' = Inr (map Num dr)"
    and vol: "getitem (heap s2 ! 4) ''Volatility_20d'' = Inr (map Num vol)"
      "length vol = length close"
    and early: "\<forall>i. i < length close \<and> i < 20 \<longrightarrow> vol ! i = NaN"
    and full: "\<forall>i g. 20 \<le> i \<and> i < length close \<and>
        (\<forall>k. i - 19 \<le> k \<and> k \<le> i \<longrightarrow> dr ! k = Fin (g k)) \<longrightarrow>
        vol ! i = Fin (sqrt ((\<Sum>k = i - 19..i. (g k - (\<Sum>j = i - 19..i. g j) / 20)\<^sup>2) / 19))"
    by blast
  have "map Num close = map Num ?xs" "map Num dr = map Num (percent (returns_of ?xs))"
    using c close d dr by simp_all
  then have eq: "close = ?xs" "dr = percent (returns_of ?xs)"
    by (simp_all only: map_Num_eq)
  have len: "length close = 21"
    by (simp add: eq)
  have zero: "\<forall>k. 20 - 19 \<le> k \<and> k \<le> 20 \<longrightarrow> dr ! k = Fin ((\<lambda>_. 0) k)"
  proof (intro allI impI)
    fix k :: nat
    assume "20 - 19 \<le> k \<and> k \<le> 20"
    then have "0 < k" "k < 21" "k - 1 < 21"
      by auto
    then show "dr ! k = Fin ((\<lambda>_. 0) k)"
      by (simp add: eq daily_nth fsub_def)
  qed
  have last: "vol ! 20 = Fin 0"
    using full [rule_format, of 20 "\<lambda>_. 0"] zero len by simp
  have "vol = replicate 20 NaN @ [Fin 0]"
  proof (rule nth_equalityI)
    show "length vol = length (replicate 20 NaN @ [Fin 0])"
      using vol(2) len by simp
  next
    fix i
    assume "i < length vol"
    then have "i < 20 \<or> i = 20"
      using vol(2) len by auto
    then show "vol ! i = (replicate 20 NaN @ [Fin 0]) ! i"
      using early last len by (auto simp: nth_append)
  qed
  then show ?thesis
    using p vol(1) by simp
qed

text \<open>
  The claim as stated puts the first defined value at row 19: in a table of 20 rows, row 19
  has no volatility.
\<close>

theorem volatility_20d_counterexample:
  "fst (pipeline sample_pandas (Some 0)
      (world_of (daily_table (map Num (replicate 20 (Fin 100)))))) = Inr (Some 4) \<and>
   getitem (heap (snd (pipeline sample_pandas (Some 0)
      (world_of (daily_table (map Num (replicate 20 (Fin 100))))))) ! 4) ''Close'' =
     Inr (map Num (replicate 20 (Fin 100))) \<and>
   getitem (heap (snd (pipeline sample_pandas (Some 0)
      (world_of (daily_table (map Num (replicate 20 (Fin 100))))))) ! 4) ''Volatility_20d'' =
     Inr (map Num (replicate 20 NaN))"
proof -
  let ?xs = "replicate 20 (Fin 100)"
  let ?vol = "rolling 20 std 1 (percent (returns_of ?xs))"
  have ne: "?xs \<noteq> []"
    by simp
  have same: "ffill_col (map Num ?xs) = map Num ?xs"
    by (rule ffill_col_numbers) simp
  from daily_table_series [OF ne same, of sample_pandas]
  obtain s2 where
    p: "pipeline sample_pandas (Some 0) (world_of (daily_table (map Num ?xs))) =
       (Inr (Some 4), s2)"
    and c: "getitem (heap s2 ! 4) ''Close'' = Inr (map Num ?xs)"
    and v: "getitem (heap s2 ! 4) ''Volatility_20d'' = Inr (map Num ?vol)"
    by blast
  have "?vol = replicate 20 NaN"
  proof (rule nth_equalityI)
    show "length ?vol = length (replicate 20 NaN)"
      by (simp add: rolling_length percent_length returns_of_length)
  next
    fix i
    assume "i < length ?vol"
    then have i: "i < 20"
      by (simp add: rolling_length percent_length returns_of_length)
    then have "?vol ! i = NaN"
      by (intro volatility_early) simp_all
    then show "?vol ! i = replicate 20 NaN ! i"
      using i by simp
  qed
  then show ?thesis
    using p c v by simp
qed

section \<open>Cumulative return\<close>

text \<open>
  Claim C3. \<open>Cum_Return\<close> is \<^verbatim>\<open>NaN\<close> wherever \<open>Daily_Return\<close> is, so at row 0; at a
  row \<open>i > 0\<close> whose returns from row 1 on are finite it is the product of
  \<open>1 + Daily_Return[k] / 100\<close> over \<open>k = 1..i\<close>, minus one, times 100.
\<close>

theorem cumulative_return:
  assumes "wf_df (heap s0 ! r0)"
    and "process_time_series L (Some r0) s0 = (Inr (Some r1), s1)"
    and "calculate_basic_metrics L (Some r1) s1 = (Inr (Some r2), s2)"
  shows "\<exists>dr cum.
     getitem (heap s2 ! r2) ''Daily_Return'' = Inr (map Num dr) \<and>
     getitem (heap s2 ! r2) ''Cum_Return'' = Inr (map Num cum) \<and>
     length dr = nrows (heap s1 ! r1) \<and> length cum = length dr \<and> 0 < length dr \<and>
     cum ! 0 = NaN \<and>
     (\<forall>i. i < length dr \<and> dr ! i = NaN \<longrightarrow> cum ! i = NaN) \<and>
     (\<forall>i g. 0 < i \<and> i < length dr \<and> (\<forall>k. 1 \<le> k \<and> k \<le> i \<longrightarrow> dr ! k = Fin (g k)) \<longrightarrow>
        cum ! i = Fin (((\<Prod>k = 1..i. 1 + g k / 100) - 1) * 100))"
proof -
  from pipeline_columns [OF assms(2,3)]
  obtain close where close: "getitem (heap s1 ! r1) ''Close'' = Inr (map Num close)"
    and dr: "getitem (heap s2 ! r2) ''Daily_Return'' = Inr (map Num (percent (returns_of close)))"
    and cum: "getitem (heap s2 ! r2) ''Cum_Return'' =
       Inr (map Num (compound (percent (returns_of close))))"
    by blast
  let ?dr = "percent (returns_of close)"
  have rows: "length ?dr = nrows (heap s1 ! r1)" "0 < nrows (heap s1 ! r1)"
    using pipeline_rows [OF assms(1,2) close] by (simp_all add: percent_length returns_of_length)
  then have first: "?dr ! 0 = NaN"
    by (simp add: daily_nth percent_length returns_of_length)
  have "compound ?dr ! 0 = NaN"
    using rows first by (intro compound_nan) simp_all
  moreover have "\<forall>i. i < length ?dr \<and> ?dr ! i = NaN \<longrightarrow> compound ?dr ! i = NaN"
    by (simp add: compound_nan)
  moreover have "\<forall>i g. 0 < i \<and> i < length ?dr \<and>
      (\<forall>k. 1 \<le> k \<and> k \<le> i \<longrightarrow> ?dr ! k = Fin (g k)) \<longrightarrow>
      compound ?dr ! i = Fin (((\<Prod>k = 1..i. 1 + g k / 100) - 1) * 100)"
  proof (intro allI impI, elim conjE)
    fix i g
    assume "0 < i" "i < length ?dr" "\<forall>k. 1 \<le> k \<and> k \<le> i \<longrightarrow> ?dr ! k = Fin (g k)"
    then show "compound ?dr ! i = Fin (((\<Prod>k = 1..i. 1 + g k / 100) - 1) * 100)"
      using first by (intro compound_fin)
  qed
  ultimately show ?thesis
    using dr cum rows
    by (intro exI [of _ ?dr] exI [of _ "compound ?dr"] conjI) (simp_all add: compound_length)
qed

theorem cumulative_return_witness:
  "fst (pipeline sample_pandas (Some 0)
      (world_of (daily_table (map Num [Fin 100, Fin 110, Fin 99])))) = Inr (Some 4) \<and>
   getitem (heap (snd (pipeline sample_pandas (Some 0)
      (world_of (daily_table (map Num [Fin 100, Fin 110, Fin 99]))))) ! 4) ''Cum_Return'' =
     Inr (map Num [NaN, Fin 10, Fin (- 1)])"
proof -
  let ?xs = "[Fin 100, Fin 110, Fin 99]"
  let ?w = "world_of (daily_table (map Num ?xs))"
  have ne: "?xs \<noteq> []"
    by simp
  have same: "ffill_col (map Num ?xs) = map Num ?xs"
    by (rule ffill_col_numbers) simp
  from daily_table_series [OF ne same, of sample_pandas]
  obtain s1 s2 where
    n: "process_time_series sample_pandas (Some 0) ?w = (Inr (Some 3), s1)"
    and a: "calculate_basic_metrics sample_pandas (Some 3) s1 = (Inr (Some 4), s2)"
    and p: "pipeline sample_pandas (Some 0) ?w = (Inr (Some 4), s2)"
    and d: "getitem (heap s2 ! 4) ''Daily_Return'' = Inr (map Num (percent (returns_of ?xs)))"
    by blast
  have wf: "wf_df (heap ?w ! 0)"
    by (simp only: daily_table_world daily_table_wf)
  from cumulative_return [OF wf n a]
  obtain dr cum where dr: "getitem (heap s2 ! 4) ''Daily_Return'' = Inr (map Num dr)"
    and cum: "getitem (heap s2 ! 4) ''Cum_Return'' = Inr (map Num cum)"
    and len: "length cum = length dr"
    and first: "cum ! 0 = NaN"
    and fin: "\<forall>i g. 0 < i \<and> i < length dr \<and> (\<forall>k. 1 \<le> k \<and> k \<le> i \<longrightarrow> dr ! k = Fin (g k)) \<longrightarrow>
        cum ! i = Fin (((\<Prod>k = 1..i. 1 + g k / 100) - 1) * 100)"
    by blast
  have "map Num dr = map Num (percent (returns_of ?xs))"
    using d dr by simp
  then have dr_eq: "dr = percent (returns_of ?xs)"
    by (simp only: map_Num_eq)
  have vals: "dr ! 1 = Fin 10" "dr ! 2 = Fin (- 10)" "length dr = 3"
    by (simp_all add: dr_eq daily_nth fsub_def percent_length returns_of_length)
  define g :: "nat \<Rightarrow> real" where "g k = (if k = 1 then 10 else - 10)" for k
  have g: "\<forall>k. 1 \<le> k \<and> k \<le> i \<longrightarrow> dr ! k = Fin (g k)" if "i \<le> 2" for i
  proof (intro allI impI)
    fix k
    assume "1 \<le> k \<and> k \<le> i"
    then have "k = 1 \<or> k = 2"
      using that by auto
    then show "dr ! k = Fin (g k)"
      using vals by (auto simp: g_def)
  qed
  have "cum ! 1 = Fin (((\<Prod>k = 1..1. 1 + g k / 100) - 1) * 100)"
    using fin [rule_format, of 1 g] g [of 1] vals(3) by simp
  moreover have "cum ! 2 = Fin (((\<Prod>k = 1..2. 1 + g k / 100) - 1) * 100)"
    using fin [rule_format, of 2 g] g [of 2] vals(3) by simp
  moreover have "{1..2::nat} = {1, 2}"
    by auto
  ultimately have "cum ! 1 = Fin 10" "cum ! 2 = Fin (- 1)"
    by (simp_all add: g_def)
  moreover have "length cum = 3"
    using len vals(3) by simp
  ultimately have "cum = [NaN, Fin 10, Fin (- 1)]"
    using first list_of_three [of cum] by simp
  then show ?thesis
    using p cum by simp
qed

section \<open>Moving averages\<close>

text \<open>
  Claim C4, as amended. For each window \<open>w\<close> of 5, 20 and 50 rows the moving average at
  row \<open>i\<close> is \<^verbatim>\<open>NaN\<close> while \<open>i < w - 1\<close> and wherever a price in the window is not
  finite; at a row \<open>i \<ge> w - 1\<close> whose window holds finite prices only it is their
  arithmetic mean.
\<close>

theorem moving_averages:
  assumes "wf_df (heap s0 ! r0)"
    and "process_time_series L (Some r0) s0 = (Inr (Some r1), s1)"
    and "calculate_basic_metrics L (Some r1) s1 = (Inr (Some r2), s2)"
  shows "\<exists>close ma5 ma20 ma50.
     getitem (heap s2 ! r2) ''Close'' = Inr (map Num close) \<and>
     getitem (heap s2 ! r2) ''5d_MA'' = Inr (map Num ma5) \<and>
     getitem (heap s2 ! r2) ''20d_MA'' = Inr (map Num ma20) \<and>
     getitem (heap s2 ! r2) ''50d_MA'' = Inr (map Num ma50) \<and>
     length close = nrows (heap s1 ! r1) \<and>
     (\<forall>(w, ma) \<in> {(5, ma5), (20, ma20), (50, ma50)}.
        length ma = length close \<and>
        (\<forall>i. i < length close \<and> i + 1 < w \<longrightarrow> ma ! i = NaN) \<and>
        (\<forall>i g. w \<le> i + 1 \<and> i < length close \<and>
             (\<forall>k. i + 1 - w \<le> k \<and> k \<le> i \<longrightarrow> close ! k = Fin (g k)) \<longrightarrow>
           ma ! i = Fin ((\<Sum>k = i + 1 - w..i. g k) / real w)) \<and>
        (\<forall>i k. i < length close \<and> k \<le> i \<and> i < k + w \<and> (\<forall>a. close ! k \<noteq> Fin a) \<longrightarrow>
           ma ! i = NaN))"
proof -
  from pipeline_columns [OF assms(2,3)]
  obtain close where close: "getitem (heap s1 ! r1) ''Close'' = Inr (map Num close)"
    "getitem (heap s2 ! r2) ''Close'' = Inr (map Num close)"
    and ma: "getitem (heap s2 ! r2) ''5d_MA'' = Inr (map Num (rolling 5 mean 0 close))"
      "getitem (heap s2 ! r2) ''20d_MA'' = Inr (map Num (rolling 20 mean 0 close))"
      "getitem (heap s2 ! r2) ''50d_MA'' = Inr (map Num (rolling 50 mean 0 close))"
    by blast
  have rows: "length close = nrows (heap s1 ! r1)"
    using pipeline_rows [OF assms(1,2) close(1)] by simp
  have spec: "length (rolling w mean 0 close) = length close \<and>
        (\<forall>i. i < length close \<and> i + 1 < w \<longrightarrow> rolling w mean 0 close ! i = NaN) \<and>
        (\<forall>i g. w \<le> i + 1 \<and> i < length close \<and>
             (\<forall>k. i + 1 - w \<le> k \<and> k \<le> i \<longrightarrow> close ! k = Fin (g k)) \<longrightarrow>
           rolling w mean 0 close ! i = Fin ((\<Sum>k = i + 1 - w..i. g k) / real w)) \<and>
        (\<forall>i k. i < length close \<and> k \<le> i \<and> i < k + w \<and> (\<forall>a. close ! k \<noteq> Fin a) \<longrightarrow>
           rolling w mean 0 close ! i = NaN)" if "0 < w" for w
  proof (intro conjI allI impI; (elim conjE)?)
    show "length (rolling w mean 0 close) = length close"
      by (simp add: rolling_length)
  next
    fix i
    assume "i < length close" "i + 1 < w"
    then show "rolling w mean 0 close ! i = NaN"
      by (rule rolling_early)
  next
    fix i g
    assume "w \<le> i + 1" "i < length close"
      "\<forall>k. i + 1 - w \<le> k \<and> k \<le> i \<longrightarrow> close ! k = Fin (g k)"
    then show "rolling w mean 0 close ! i = Fin ((\<Sum>k = i + 1 - w..i. g k) / real w)"
      using that by (intro moving_average_full)
  next
    fix i k
    assume "i < length close" "k \<le> i" "i < k + w" "\<forall>a. close ! k \<noteq> Fin a"
    then show "rolling w mean 0 close ! i = NaN"
      by (rule rolling_missing)
  qed
  show ?thesis
    by (rule exI [of _ close], rule exI [of _ "rolling 5 mean 0 close"],
        rule exI [of _ "rolling 20 mean 0 close"], rule exI [of _ "rolling 50 mean 0 close"])
      (use close ma rows spec [of 5] spec [of 20] spec [of 50] in simp)
qed

theorem moving_averages_witness:
  "fst (pipeline sample_pandas (Some 0)
      (world_of (daily_table (map Num (map (\<lambda>k. Fin (real k + 1)) [0..<50]))))) =
     Inr (Some 4) \<and>
   getitem (heap (snd (pipeline sample_pandas (Some 0)
      (world_of (daily_table (map Num (map (\<lambda>k. Fin (real k + 1)) [0..<50])))))) ! 4)
      ''5d_MA'' =
     Inr (map Num (map (\<lambda>i. if i < 4 then NaN else Fin (real i - 1)) [0..<50])) \<and>
   getitem (heap (snd (pipeline sample_pandas (Some 0)
      (world_of (daily_table (map Num (map (\<lambda>k. Fin (real k + 1)) [0..<50])))))) ! 4)
      ''20d_MA'' =
     Inr (map Num (map (\<lambda>i. if i < 19 then NaN else Fin (real i - 17 / 2)) [0..<50])) \<and>
   getitem (heap (snd (pipeline sample_pandas (Some 0)
      (world_of (daily_table (map Num (map (\<lambda>k. Fin (real k + 1)) [0..<50])))))) ! 4)
      ''50d_MA'' =
     Inr (map Num (map (\<lambda>i. if i < 49 then NaN else Fin (51 / 2)) [0..<50]))"
proof -
  define xs where "xs = map (\<lambda>k. Fin (real k + 1)) [0..<50]"
  have xs: "xs \<noteq> []" "ffill_col (map Num xs) = map Num xs" "length xs = 50"
    "\<And>k. k < 50 \<Longrightarrow> xs ! k = Fin (real k + 1)"
    unfolding xs_def by (rule linear_closes)+
  let ?w = "world_of (daily_table (map Num xs))"
  from daily_table_series [OF xs(1,2), of sample_pandas]
  obtain s1 s2 where
    n: "process_time_series sample_pandas (Some 0) ?w = (Inr (Some 3), s1)"
    and a: "calculate_basic_metrics sample_pandas (Some 3) s1 = (Inr (Some 4), s2)"
    and p: "pipeline sample_pandas (Some 0) ?w = (Inr (Some 4), s2)"
    and c: "getitem (heap s2 ! 4) ''Close'' = Inr (map Num xs)"
    by blast
  have wf: "wf_df (heap ?w ! 0)"
    by (simp only: daily_table_world daily_table_wf)
  from moving_averages [OF wf n a]
  obtain close ma5 ma20 ma50 where
    close: "getitem (heap s2 ! 4) ''Close'' = Inr (map Num close)"
    and ma: "getitem (heap s2 ! 4) ''5d_MA'' = Inr (map Num ma5)"
      "getitem (heap s2 ! 4) ''20d_MA'' = Inr (map Num ma20)"
      "getitem (heap s2 ! 4) ''50d_MA'' = Inr (map Num ma50)"
    and spec: "\<forall>(w, ma) \<in> {(5, ma5), (20, ma20), (50, ma50)}.
        length ma = length close \<and>
        (\<forall>i. i < length close \<and> i + 1 < w \<longrightarrow> ma ! i = NaN) \<and>
        (\<forall>i g. w \<le> i + 1 \<and> i < length close \<and>
             (\<forall>k. i + 1 - w \<le> k \<and> k \<le> i \<longrightarrow> close ! k = Fin (g k)) \<longrightarrow>
           ma ! i = Fin ((\<Sum>k = i + 1 - w..i. g k) / real w)) \<and>
        (\<forall>i k. i < length close \<and> k \<le> i \<and> i < k + w \<and> (\<forall>a. close ! k \<noteq> Fin a) \<longrightarrow>
           ma ! i = NaN)"
    by blast
  have "map Num close = map Num xs"
    using c close by simp
  then have eq: "close = xs"
    by (simp only: map_Num_eq)
  have column: "ma = map (\<lambda>i. if i + 1 < w then NaN else Fin (real i + (3 - real w) / 2)) [0..<50]"
    if "(w, ma) \<in> {(5, ma5), (20, ma20), (50, ma50)}" for w ma
  proof -
    have "length ma = length close \<and>
        (\<forall>i. i < length close \<and> i + 1 < w \<longrightarrow> ma ! i = NaN) \<and>
        (\<forall>i g. w \<le> i + 1 \<and> i < length close \<and>
             (\<forall>k. i + 1 - w \<le> k \<and> k \<le> i \<longrightarrow> close ! k = Fin (g k)) \<longrightarrow>
           ma ! i = Fin ((\<Sum>k = i + 1 - w..i. g k) / real w))"
      using bspec [OF spec that] by simp
    then have "length ma = 50"
      and "\<forall>i. i < 50 \<and> i + 1 < w \<longrightarrow> ma ! i = NaN"
      and "\<forall>i g. w \<le> i + 1 \<and> i < 50 \<and>
             (\<forall>k. i + 1 - w \<le> k \<and> k \<le> i \<longrightarrow> xs ! k = Fin (g k)) \<longrightarrow>
           ma ! i = Fin ((\<Sum>k = i + 1 - w..i. g k) / real w)"
      unfolding eq xs(3) by blast+
    moreover have "0 < w"
      using that by auto
    ultimately show ?thesis
      using xs(4) by (intro trailing_mean_column [where xs = xs])
  qed
  have "ma5 = map (\<lambda>i. if i < 4 then NaN else Fin (real i - 1)) [0..<50]"
    "ma20 = map (\<lambda>i. if i < 19 then NaN else Fin (real i - 17 / 2)) [0..<50]"
    "ma50 = map (\<lambda>i. if i < 49 then NaN else Fin (51 / 2)) [0..<50]"
    using column [of 5 ma5] column [of 20 ma20] column [of 50 ma50]
    unfolding linear_columns by simp_all
  then show ?thesis
    using p ma unfolding xs_def by simp
qed

text \<open>
  The claim as stated has the 20-day average defined from row 19 on in every table of 20
  rows or more: a first price that is missing stays missing after the forward fill, and
  row 19 has no average.
\<close>

theorem moving_averages_counterexample:
  "fst (pipeline sample_pandas (Some 0)
      (world_of (daily_table (map Num (NaN # replicate 19 (Fin 100)))))) = Inr (Some 4) \<and>
   getitem (heap (snd (pipeline sample_pandas (Some 0)
      (world_of (daily_table (map Num (NaN # replicate 19 (Fin 100))))))) ! 4) ''Close'' =
     Inr (map Num (NaN # replicate 19 (Fin 100))) \<and>
   getitem (heap (snd (pipeline sample_pandas (Some 0)
      (world_of (daily_table (map Num (NaN # replicate 19 (Fin 100))))))) ! 4) ''20d_MA'' =
     Inr (map Num (replicate 20 NaN))"
proof -
  let ?xs = "NaN # replicate 19 (Fin 100)"
  let ?ma = "rolling 20 mean 0 ?xs"
  have ne: "?xs \<noteq> []"
    by simp
  have same: "ffill_col (map Num ?xs) = map Num ?xs"
    by (rule ffill_col_leading_nan) simp
  from daily_table_series [OF ne same, of sample_pandas]
  obtain s2 where
    p: "pipeline sample_pandas (Some 0) (world_of (daily_table (map Num ?xs))) =
       (Inr (Some 4), s2)"
    and c: "getitem (heap s2 ! 4) ''Close'' = Inr (map Num ?xs)"
    and m: "getitem (heap s2 ! 4) ''20d_MA'' = Inr (map Num ?ma)"
    by blast
  have "?ma = replicate 20 NaN"
  proof (rule nth_equalityI)
    show "length ?ma = length (replicate 20 NaN)"
      by (simp add: rolling_length)
  next
    fix i
    assume "i < length ?ma"
    then have i: "i < 20"
      by (simp add: rolling_length)
    then have "?ma ! i = NaN"
      by (intro rolling_missing [where k = 0]) simp_all
    then show "?ma ! i = replicate 20 NaN ! i"
      using i by simp
  qed
  then show ?thesis
    using p c m by simp
qed

section \<open>Row count\<close>

text \<open>
  Claim C5. On a non-empty rectangular table with a \<^verbatim>\<open>Date\<close> column that
  \<^verbatim>\<open>pd.to_datetime\<close> accepts, \<open>process_time_series\<close> returns a table with as many rows
  as its input.
\<close>

theorem row_count:
  assumes "wf_df (heap s ! r)" "\<not> empty (heap s ! r)"
    and "getitem (heap s ! r) ''Date'' = Inr c" "to_datetime L c = Inr c'"
  shows "\<exists>r1 s1. process_time_series L (Some r) s = (Inr (Some r1), s1) \<and>
     nrows (heap s1 ! r1) = nrows (heap s ! r)"
proof -
  from process_time_series_returns [OF assms(2-4)]
  obtain r1 s1 where n: "process_time_series L (Some r) s = (Inr (Some r1), s1)"
    by blast
  then show ?thesis
    using normalized_wf [OF n assms(1)] by blast
qed

theorem row_count_witness:
  "fst (process_time_series sample_pandas (Some 0)
      (world_of (daily_table [Num (Fin 100), Num NaN, Num (Fin 99)]))) = Inr (Some 3) \<and>
   nrows (heap (snd (process_time_series sample_pandas (Some 0)
      (world_of (daily_table [Num (Fin 100), Num NaN, Num (Fin 99)])))) ! 3) = 3"
proof -
  let ?c = "[Num (Fin 100), Num NaN, Num (Fin 99)]"
  let ?w = "world_of (daily_table ?c)"
  have ne: "?c \<noteq> []"
    by simp
  from row_count [OF daily_table_valid [OF ne]]
  obtain r1 s1 where n: "process_time_series sample_pandas (Some 0) ?w = (Inr (Some r1), s1)"
    and rows: "nrows (heap s1 ! r1) = nrows (heap ?w ! 0)"
    by blast
  have "r1 = 3"
    using process_time_series_ref [OF n] by (simp add: world_of_heap)
  moreover have "nrows (heap ?w ! 0) = 3"
    by (simp add: daily_table_world) (simp add: nrows_def daily_table_def)
  ultimately show ?thesis
    using n rows by simp
qed

section \<open>Columns and index of the normalized table\<close>

text \<open>
  Claim C6, as amended. The columns of the table that \<open>process_time_series\<close> returns
  are those of the input without \<^verbatim>\<open>Date\<close>, and \<^verbatim>\<open>DayOfWeek\<close> and \<^verbatim>\<open>Month\<close>; its index
  is the \<^verbatim>\<open>Date\<close> column as timestamps, in the order of the input's rows, so it is
  strictly increasing exactly when the input's dates are.
\<close>

theorem normalized_shape:
  assumes "wf_df (heap s ! r)" "\<not> empty (heap s ! r)"
    and "getitem (heap s ! r) ''Date'' = Inr c" "to_datetime L c = Inr c'"
  shows "\<exists>r1 s1. process_time_series L (Some r) s = (Inr (Some r1), s1) \<and>
     set (column_names (heap s1 ! r1)) =
       set (column_names (heap s ! r)) - {''Date''} \<union> {''DayOfWeek'', ''Month''} \<and>
     index (heap s1 ! r1) = c' \<and>
     (increasing (index (heap s1 ! r1)) \<longleftrightarrow> increasing c')"
proof -
  from process_time_series_returns [OF assms(2-4)]
  obtain r1 s1 where n: "process_time_series L (Some r) s = (Inr (Some r1), s1)"
    by blast
  have "index (heap s1 ! r1) = c'"
    using normalized_index [OF n] assms(3,4) by auto
  then show ?thesis
    using n normalized_names [OF n] by simp
qed

theorem normalized_shape_witness:
  "fst (process_time_series sample_pandas (Some 0)
      (world_of (daily_table [Num (Fin 100), Num (Fin 110)]))) = Inr (Some 3) \<and>
   set (column_names (heap (snd (process_time_series sample_pandas (Some 0)
      (world_of (daily_table [Num (Fin 100), Num (Fin 110)])))) ! 3)) =
     {''Close'', ''Volume'', ''DayOfWeek'', ''Month''} \<and>
   index (heap (snd (process_time_series sample_pandas (Some 0)
      (world_of (daily_table [Num (Fin 100), Num (Fin 110)])))) ! 3) =
     [Stamp 0, Stamp day_ns] \<and>
   increasing (index (heap (snd (process_time_series sample_pandas (Some 0)
      (world_of (daily_table [Num (Fin 100), Num (Fin 110)])))) ! 3))"
proof -
  let ?c = "[Num (Fin 100), Num (Fin 110)]"
  let ?w = "world_of (daily_table ?c)"
  have ne: "?c \<noteq> []"
    by simp
  have names: "set (column_names (heap ?w ! 0)) - {''Date''} \<union>
      {''DayOfWeek'', ''Month''} = {''Close'', ''Volume'', ''DayOfWeek'', ''Month''}"
    by (simp add: daily_table_world) (auto simp: column_names_def daily_table_def)
  have dates: "map (\<lambda>i. Stamp (int i * day_ns)) [0..<length ?c] = [Stamp 0, Stamp day_ns]"
    by (simp add: upt_rec)
  have inc: "increasing [Stamp 0, Stamp day_ns]"
    by (simp add: increasing_def day_ns_def)
  from normalized_shape [OF daily_table_valid [OF ne]]
  obtain r1 s1 where n: "process_time_series sample_pandas (Some 0) ?w = (Inr (Some r1), s1)"
    and shape: "set (column_names (heap s1 ! r1)) =
       {''Close'', ''Volume'', ''DayOfWeek'', ''Month''}"
      "index (heap s1 ! r1) = [Stamp 0, Stamp day_ns]"
    unfolding names dates by blast
  have "r1 = 3"
    using process_time_series_ref [OF n] by (simp add: world_of_heap)
  then show ?thesis
    using n shape inc by simp
qed

text \<open>
  The claim as stated keeps every original column and has the index strictly increasing:
  \<^verbatim>\<open>Date\<close> leaves the columns, and rows are never sorted.
\<close>

theorem normalized_shape_counterexample:
  "fst (process_time_series sample_pandas (Some 0)
      (world_of (daily_table [Num (Fin 100), Num (Fin 110)]))) = Inr (Some 3) \<and>
   set (column_names (heap (snd (process_time_series sample_pandas (Some 0)
      (world_of (daily_table [Num (Fin 100), Num (Fin 110)])))) ! 3)) \<noteq>
     set (column_names (daily_table [Num (Fin 100), Num (Fin 110)])) \<union>
       {''DayOfWeek'', ''Month''} \<and>
   fst (process_time_series sample_pandas (Some 0) (world_of reversed_table)) =
     Inr (Some 3) \<and>
   index (heap (snd (process_time_series sample_pandas (Some 0)
      (world_of reversed_table))) ! 3) = [Stamp day_ns, Stamp 0] \<and>
   \<not> increasing (index (heap (snd (process_time_series sample_pandas (Some 0)
      (world_of reversed_table))) ! 3))"
proof -
  let ?c = "[Num (Fin 100), Num (Fin 110)]"
  let ?w = "world_of (daily_table ?c)"
  have ne: "?c \<noteq> []"
    by simp
  from process_time_series_returns [OF daily_table_valid(2-4) [OF ne]]
  obtain r1 s1 where n1: "process_time_series sample_pandas (Some 0) ?w = (Inr (Some r1), s1)"
    by blast
  have r1: "r1 = 3"
    using process_time_series_ref [OF n1] by (simp add: world_of_heap)
  have "''Date'' \<notin> set (column_names (heap s1 ! r1))"
    using normalized_names [OF n1] by simp
  moreover have "''Date'' \<in> set (column_names (daily_table ?c))"
    by (simp add: column_names_def daily_table_def)
  ultimately have names: "set (column_names (heap s1 ! r1)) \<noteq>
      set (column_names (daily_table ?c)) \<union> {''DayOfWeek'', ''Month''}"
    by blast
  let ?v = "world_of reversed_table"
  have rev: "\<not> empty (heap ?v ! 0)"
    "getitem (heap ?v ! 0) ''Date'' = Inr [Stamp day_ns, Stamp 0]"
    "to_datetime sample_pandas [Stamp day_ns, Stamp 0] = Inr [Stamp day_ns, Stamp 0]"
    by (simp_all add: world_of_def reversed_table_def empty_def getitem_def
        to_datetime_stamp_list)
  from process_time_series_returns [OF rev]
  obtain r2 s2 where n2: "process_time_series sample_pandas (Some 0) ?v = (Inr (Some r2), s2)"
    by blast
  have r2: "r2 = 3"
    using process_time_series_ref [OF n2] by (simp add: world_of_heap)
  have idx: "index (heap s2 ! r2) = [Stamp day_ns, Stamp 0]"
    using normalized_index [OF n2] rev(2,3) by auto
  have ninc: "\<not> increasing (index (heap s2 ! r2))"
    unfolding idx by (simp add: increasing_def day_ns_def)
  show ?thesis
    using names idx ninc unfolding n1 n2 r1 r2 by simp
qed

section \<open>Inputs on which the functions return\<close>

text \<open>
  Claim C7, as amended. On a rectangular table that names each column once,
  \<open>process_time_series\<close> returns a table when the input is not empty and has a \<^verbatim>\<open>Date\<close>
  column that \<^verbatim>\<open>pd.to_datetime\<close> accepts, and \<open>calculate_basic_metrics\<close> returns one when
  the input is not empty and its \<^verbatim>\<open>Close\<close> and \<^verbatim>\<open>Volume\<close> columns hold numbers.
\<close>

theorem returns_normally:
  "(wf_df (heap s ! r) \<and> \<not> empty (heap s ! r) \<and>
    getitem (heap s ! r) ''Date'' = Inr c \<and> to_datetime L c = Inr c' \<longrightarrow>
      (\<exists>r1 s1. process_time_series L (Some r) s = (Inr (Some r1), s1))) \<and>
   (wf_df (heap s ! r) \<and> \<not> empty (heap s ! r) \<and>
    getitem (heap s ! r) ''Close'' = Inr (map Num close) \<and>
    getitem (heap s ! r) ''Volume'' = Inr (map Num volume) \<longrightarrow>
      (\<exists>r2 s2. calculate_basic_metrics L (Some r) s = (Inr (Some r2), s2)))"
  using process_time_series_returns calculate_basic_metrics_returns by blast

theorem returns_normally_witness:
  "fst (process_time_series sample_pandas (Some 0)
      (world_of (daily_table (map Num [Fin 100, NaN, Fin 99])))) = Inr (Some 3) \<and>
   fst (calculate_basic_metrics sample_pandas (Some 0)
      (world_of (daily_table (map Num [Fin 100, NaN, Fin 99])))) = Inr (Some 1)"
proof -
  let ?xs = "[Fin 100, NaN, Fin 99]"
  let ?w = "world_of (daily_table (map Num ?xs))"
  have ne: "map Num ?xs \<noteq> []"
    by simp
  have cols: "getitem (heap ?w ! 0) ''Close'' = Inr (map Num ?xs)"
    "getitem (heap ?w ! 0) ''Volume'' = Inr (map Num (replicate (length (map Num ?xs)) (Fin 1000)))"
    unfolding daily_table_world by (simp_all only: daily_table_columns map_replicate)
  have both: "(\<exists>r1 s1. process_time_series sample_pandas (Some 0) ?w = (Inr (Some r1), s1)) \<and>
      (\<exists>r2 s2. calculate_basic_metrics sample_pandas (Some 0) ?w = (Inr (Some r2), s2))"
    using returns_normally [of ?w 0 _ sample_pandas _ ?xs
        "replicate (length (map Num ?xs)) (Fin 1000)"]
      daily_table_valid [OF ne] cols
    by blast
  then obtain r1 s1 r2 s2 where
    n: "process_time_series sample_pandas (Some 0) ?w = (Inr (Some r1), s1)"
    and a: "calculate_basic_metrics sample_pandas (Some 0) ?w = (Inr (Some r2), s2)"
    by blast
  have "r1 = 3" "r2 = 1"
    using process_time_series_ref [OF n] calculate_basic_metrics_ref [OF a]
    by (simp_all add: world_of_heap)
  then show ?thesis
    using n a by simp
qed

text \<open>
  The claim as stated has both return whatever the columns are: on a table without the
  columns they read, both raise \<^verbatim>\<open>KeyError\<close>.
\<close>

theorem returns_normally_counterexample:
  "fst (process_time_series sample_pandas (Some 0) (world_of intraday_table)) =
     Inl (KeyError ''Date'') \<and>
   fst (calculate_basic_metrics sample_pandas (Some 0) (world_of intraday_table)) =
     Inl (KeyError ''Close'') \<and>
   \<not> empty intraday_table"
proof -
  have "\<not> empty (heap (world_of intraday_table) ! 0)"
    "''Date'' \<notin> set (column_names (heap (world_of intraday_table) ! 0))"
    "''Close'' \<notin> set (column_names (heap (world_of intraday_table) ! 0))"
    by (simp_all add: world_of_def intraday_table_def empty_def column_names_def)
  then show ?thesis
    using process_time_series_no_date calculate_basic_metrics_no_close
    by (simp add: world_of_def)
qed

end
